theory Spec2Isabelle
  imports Complex_Main "HOL-Library.Word" "HOL-Library.Sublist"
begin

unbundle bit_operations_syntax

section \<open>Errors\<close>

text \<open>
  Every \<open>TLLM_CHECK\<close>, \<open>TLLM_CHECK_WITH_INFO\<close> and \<open>TLLM_THROW\<close> of the modelled
  functions throws; the model returns the exception as a value, one constructor per
  check site.
\<close>

datatype error =
    ConfigsEmpty                  \<comment> \<open>\<open>TLLM_CHECK(configs.size() > 0)\<close>\<close>
  | ConfigValueSizeNotOne         \<comment> \<open>\<open>TLLM_CHECK(configValue.value().size() == 1)\<close>\<close>
  | LayerTypesNotDefined "8 word" \<comment> \<open>"layer types are not defined for mode (%d)"\<close>
  | PenaltyLayerNotFirst          \<comment> \<open>"Penalty layer is required to be the first layer ..."\<close>
  | RandomSeedSizeMismatch        \<comment> \<open>"Random seed vector size mismatch."\<close>
  | SubLayerSetupFailed           \<comment> \<open>an exception of a \<open>TopK/TopPSamplingLayer::setup\<close>\<close>

section \<open>runtime/decodingMode.h\<close>

type_synonym UnderlyingType = "8 word"

datatype DecodingMode = DecodingMode (mState: UnderlyingType)

definition kNone :: UnderlyingType where "kNone = 0"
definition kTopK :: UnderlyingType where "kTopK = push_bit 0 1"
definition kTopP :: UnderlyingType where "kTopP = push_bit 1 1"
definition kBeamSearch :: UnderlyingType where "kBeamSearch = push_bit 2 1"
definition kMedusa :: UnderlyingType where "kMedusa = push_bit 3 1"
definition kTopKTopP :: UnderlyingType where "kTopKTopP = kTopK OR kTopP"

definition NoneMode :: DecodingMode where "NoneMode = DecodingMode kNone"
definition TopK :: DecodingMode where "TopK = DecodingMode kTopK"
definition TopP :: DecodingMode where "TopP = DecodingMode kTopP"
definition TopKTopP :: DecodingMode where "TopKTopP = DecodingMode kTopKTopP"
definition BeamSearch :: DecodingMode where "BeamSearch = DecodingMode kBeamSearch"
definition Medusa :: DecodingMode where "Medusa = DecodingMode kMedusa"

definition anyBitSet :: "DecodingMode \<Rightarrow> UnderlyingType \<Rightarrow> bool" where
  "anyBitSet m bits = ((mState m AND bits) \<noteq> 0)"

definition allBitSet :: "DecodingMode \<Rightarrow> UnderlyingType \<Rightarrow> bool" where
  "allBitSet m bits = ((mState m AND bits) = bits)"

definition isNone :: "DecodingMode \<Rightarrow> bool" where "isNone m = (mState m = 0)"
definition isTopK :: "DecodingMode \<Rightarrow> bool" where "isTopK m = anyBitSet m kTopK"
definition isTopP :: "DecodingMode \<Rightarrow> bool" where "isTopP m = anyBitSet m kTopP"
definition isTopKorTopP :: "DecodingMode \<Rightarrow> bool" where "isTopKorTopP m = anyBitSet m kTopKTopP"
definition isTopKandTopP :: "DecodingMode \<Rightarrow> bool" where "isTopKandTopP m = allBitSet m kTopKTopP"
definition isBeamSearch :: "DecodingMode \<Rightarrow> bool" where "isBeamSearch m = anyBitSet m kBeamSearch"
definition isMedusa :: "DecodingMode \<Rightarrow> bool" where "isMedusa m = anyBitSet m kMedusa"

section \<open>layers/layersFactory.h\<close>

datatype DecodingLayers_t = PENALTY_LAYER | BAN_WORDS_LAYER | DECODING_LAYER | STOP_CRITERIA_LAYER

definition createDecodingLayerTypes :: "DecodingMode \<Rightarrow> error + DecodingLayers_t list" where
  "createDecodingLayerTypes mode =
     (if isTopKorTopP mode \<or> isBeamSearch mode
      then Inr [PENALTY_LAYER, BAN_WORDS_LAYER, DECODING_LAYER, STOP_CRITERIA_LAYER]
      else if isMedusa mode
      then Inr [PENALTY_LAYER, DECODING_LAYER, STOP_CRITERIA_LAYER]
      else Inl (LayerTypesNotDefined (mState mode)))"

text \<open>
  The layer objects of \<open>createLayers\<close>: each is built from the mode (the decoder
  domain, stream and allocator are passed through unchanged and carry no decision).
\<close>

datatype BaseLayer =
    PenaltyLayer DecodingMode
  | BanWordsLayer DecodingMode
  | DecodingLayer DecodingMode
  | StopCriteriaLayer DecodingMode

fun makeLayer :: "DecodingMode \<Rightarrow> DecodingLayers_t \<Rightarrow> BaseLayer" where
  "makeLayer mode PENALTY_LAYER = PenaltyLayer mode"
| "makeLayer mode BAN_WORDS_LAYER = BanWordsLayer mode"
| "makeLayer mode DECODING_LAYER = DecodingLayer mode"
| "makeLayer mode STOP_CRITERIA_LAYER = StopCriteriaLayer mode"

definition createLayers :: "DecodingMode \<Rightarrow> error + BaseLayer list" where
  "createLayers mode =
     (case createDecodingLayerTypes mode of
        Inl e \<Rightarrow> Inl e
      | Inr layerTypes \<Rightarrow>
          (case layerTypes of
             [] \<Rightarrow> Inl PenaltyLayerNotFirst
           | t # _ \<Rightarrow>
               if t = PENALTY_LAYER then Inr (map (makeLayer mode) layerTypes)
               else Inl PenaltyLayerNotFirst))"

section \<open>runtime/samplingConfig.h\<close>

text \<open>
  \<open>FloatType\<close> is \<open>float\<close>. Fusion only copies float values and supplies the literal
  \<open>0\<close> as one default, so the float type is a type parameter \<open>'f\<close> with a zero.
  \<open>SizeType32\<close> and \<open>TokenIdType\<close> are 32-bit integers, the seed a 64-bit one.
\<close>

type_synonym SizeType32 = "32 word"
type_synonym TokenIdType = "32 word"

record 'f SamplingConfig =
  beamWidth :: SizeType32
  temperature :: "'f list option"
  minLength :: "SizeType32 list option"
  repetitionPenalty :: "'f list option"
  presencePenalty :: "'f list option"
  frequencyPenalty :: "'f list option"
  topK :: "SizeType32 list option"
  topP :: "'f list option"
  randomSeed :: "64 word list option"
  topPDecay :: "'f list option"
  topPMin :: "'f list option"
  topPResetIds :: "TokenIdType list option"
  beamSearchDiversityRate :: "'f list option"
  lengthPenalty :: "'f list option"
  earlyStopping :: "SizeType32 list option"
  draftAcceptanceThreshold :: "'f list option"
  topKMedusaHeads :: "SizeType32 list list option"
  normalizeLogProbs :: "bool option"

text \<open>
  The values of \<open>layers::DefaultDecodingParams\<close> (\<open>defaultDecodingParams.h\<close> is not
  part of the sources at hand): a parameter of the constructor, one field per getter
  the constructor calls.
\<close>

record 'f DefaultDecodingParams =
  getTemperature :: 'f
  getMinLength :: SizeType32
  getRepetitionPenalty :: 'f
  getPresencePenalty :: 'f
  getFrequencyPenalty :: 'f
  getTopK :: SizeType32
  getTopP :: 'f
  getSeed :: "64 word"
  getTopPDecay :: 'f
  getTopPMin :: 'f
  getTopPResetId :: TokenIdType
  getBeamSearchDiversity :: 'f
  getLengthPenalty :: 'f
  getEarlyStopping :: SizeType32
  getTopKMedusaHeads :: "SizeType32 list"

text \<open>The first loop of \<open>fuseValues\<close>: is there a config with a value (stops at the first).\<close>

fun atLeastOneHasValue :: "(nat \<Rightarrow> 'a list option) \<Rightarrow> nat list \<Rightarrow> bool" where
  "atLeastOneHasValue accessor [] = False"
| "atLeastOneHasValue accessor (ci # rest) =
     (if accessor ci \<noteq> None then True else atLeastOneHasValue accessor rest)"

text \<open>
  The second loop: \<open>values\<close> grows by one entry per config, the config's single value
  or the default; a present value of another size fails the check.
\<close>

fun pushValues :: "(nat \<Rightarrow> 'a list option) \<Rightarrow> 'a \<Rightarrow> nat list \<Rightarrow> 'a list \<Rightarrow> error + 'a list" where
  "pushValues accessor defaultValue [] values = Inr values"
| "pushValues accessor defaultValue (ci # rest) values =
     (case accessor ci of
        None \<Rightarrow> pushValues accessor defaultValue rest (values @ [defaultValue])
      | Some configValue \<Rightarrow>
          if length configValue = 1
          then pushValues accessor defaultValue rest (values @ [hd configValue])
          else Inl ConfigValueSizeNotOne)"

definition fuseValues ::
  "'c list \<Rightarrow> (nat \<Rightarrow> 'a list option) \<Rightarrow> 'a \<Rightarrow> error + 'a list option" where
  "fuseValues configs accessor defaultValue =
     (if atLeastOneHasValue accessor [0..<length configs]
      then (case pushValues accessor defaultValue [0..<length configs] [] of
              Inl e \<Rightarrow> Inl e
            | Inr values \<Rightarrow> Inr (Some values))
      else Inr None)"

text \<open>Sequencing of steps that may throw: the first exception ends the constructor.\<close>

definition bindE :: "error + 'a \<Rightarrow> ('a \<Rightarrow> error + 'b) \<Rightarrow> error + 'b" where
  "bindE r f = (case r of Inl e \<Rightarrow> Inl e | Inr x \<Rightarrow> f x)"

text \<open>The constructor \<open>SamplingConfig(std::vector<SamplingConfig> const& configs)\<close>.\<close>

definition SamplingConfig_fuse ::
  "'f DefaultDecodingParams \<Rightarrow> ('f::zero) SamplingConfig list \<Rightarrow> error + 'f SamplingConfig" where
  "SamplingConfig_fuse dp configs =
    (if \<not> length configs > 0 then Inl ConfigsEmpty
     else
      bindE (fuseValues configs (\<lambda>ci. temperature (configs ! ci)) (getTemperature dp)) (\<lambda>v1.
      bindE (fuseValues configs (\<lambda>ci. minLength (configs ! ci)) (getMinLength dp)) (\<lambda>v2.
      bindE (fuseValues configs (\<lambda>ci. repetitionPenalty (configs ! ci)) (getRepetitionPenalty dp)) (\<lambda>v3.
      bindE (fuseValues configs (\<lambda>ci. presencePenalty (configs ! ci)) (getPresencePenalty dp)) (\<lambda>v4.
      bindE (fuseValues configs (\<lambda>ci. frequencyPenalty (configs ! ci)) (getFrequencyPenalty dp)) (\<lambda>v5.
      bindE (fuseValues configs (\<lambda>ci. topK (configs ! ci)) (getTopK dp)) (\<lambda>v6.
      bindE (fuseValues configs (\<lambda>ci. topP (configs ! ci)) (getTopP dp)) (\<lambda>v7.
      bindE (fuseValues configs (\<lambda>ci. randomSeed (configs ! ci)) (getSeed dp)) (\<lambda>v8.
      bindE (fuseValues configs (\<lambda>ci. topPDecay (configs ! ci)) (getTopPDecay dp)) (\<lambda>v9.
      bindE (fuseValues configs (\<lambda>ci. topPMin (configs ! ci)) (getTopPMin dp)) (\<lambda>v10.
      bindE (fuseValues configs (\<lambda>ci. topPResetIds (configs ! ci)) (getTopPResetId dp)) (\<lambda>v11.
      bindE (fuseValues configs (\<lambda>ci. beamSearchDiversityRate (configs ! ci)) (getBeamSearchDiversity dp)) (\<lambda>v12.
      bindE (fuseValues configs (\<lambda>ci. lengthPenalty (configs ! ci)) (getLengthPenalty dp)) (\<lambda>v13.
      bindE (fuseValues configs (\<lambda>ci. earlyStopping (configs ! ci)) (getEarlyStopping dp)) (\<lambda>v14.
      bindE (fuseValues configs (\<lambda>ci. topKMedusaHeads (configs ! ci)) (getTopKMedusaHeads dp)) (\<lambda>v15.
      bindE (fuseValues configs (\<lambda>ci. draftAcceptanceThreshold (configs ! ci)) 0) (\<lambda>v16.
      Inr \<lparr> beamWidth = beamWidth (hd configs),
            temperature = v1, minLength = v2, repetitionPenalty = v3, presencePenalty = v4,
            frequencyPenalty = v5, topK = v6, topP = v7, randomSeed = v8, topPDecay = v9,
            topPMin = v10, topPResetIds = v11, beamSearchDiversityRate = v12,
            lengthPenalty = v13, earlyStopping = v14, draftAcceptanceThreshold = v16,
            topKMedusaHeads = v15,
            normalizeLogProbs = normalizeLogProbs (hd configs) \<rparr>)))))))))))))))))"

subsection \<open>The fusion contract in the specification's words\<close>

text \<open>
  A single-request config carries scalars: every field is absent or a vector of one
  value.
\<close>

definition scalarOrAbsent :: "'a list option \<Rightarrow> bool" where
  "scalarOrAbsent field = (case field of None \<Rightarrow> True | Some v \<Rightarrow> length v = 1)"

definition singleRequestConfig :: "'f SamplingConfig \<Rightarrow> bool" where
  "singleRequestConfig c =
     (scalarOrAbsent (temperature c) \<and> scalarOrAbsent (minLength c)
      \<and> scalarOrAbsent (repetitionPenalty c) \<and> scalarOrAbsent (presencePenalty c)
      \<and> scalarOrAbsent (frequencyPenalty c) \<and> scalarOrAbsent (topK c)
      \<and> scalarOrAbsent (topP c) \<and> scalarOrAbsent (randomSeed c)
      \<and> scalarOrAbsent (topPDecay c) \<and> scalarOrAbsent (topPMin c)
      \<and> scalarOrAbsent (topPResetIds c) \<and> scalarOrAbsent (beamSearchDiversityRate c)
      \<and> scalarOrAbsent (lengthPenalty c) \<and> scalarOrAbsent (earlyStopping c)
      \<and> scalarOrAbsent (topKMedusaHeads c) \<and> scalarOrAbsent (draftAcceptanceThreshold c))"

text \<open>
  The fused field the specification asks for, given what each request supplies for the
  field and the field's default: absent when no request specifies it; otherwise one
  entry per request, the request's scalar or the default.
\<close>

definition fusedField :: "'a list option list \<Rightarrow> 'a \<Rightarrow> 'a list option \<Rightarrow> bool" where
  "fusedField requested defaultValue fused =
     (if list_all (\<lambda>r. r = None) requested then fused = None
      else (\<exists>v. fused = Some v \<and> length v = length requested
              \<and> list_all (\<lambda>i. case requested ! i of
                                   None \<Rightarrow> v ! i = defaultValue
                                 | Some x \<Rightarrow> x = [v ! i]) [0..<length requested]))"

definition fusedConfig ::
  "'f DefaultDecodingParams \<Rightarrow> ('f::zero) SamplingConfig list \<Rightarrow> 'f SamplingConfig \<Rightarrow> bool" where
  "fusedConfig dp configs fused =
     (fusedField (map temperature configs) (getTemperature dp) (temperature fused)
      \<and> fusedField (map minLength configs) (getMinLength dp) (minLength fused)
      \<and> fusedField (map repetitionPenalty configs) (getRepetitionPenalty dp) (repetitionPenalty fused)
      \<and> fusedField (map presencePenalty configs) (getPresencePenalty dp) (presencePenalty fused)
      \<and> fusedField (map frequencyPenalty configs) (getFrequencyPenalty dp) (frequencyPenalty fused)
      \<and> fusedField (map topK configs) (getTopK dp) (topK fused)
      \<and> fusedField (map topP configs) (getTopP dp) (topP fused)
      \<and> fusedField (map randomSeed configs) (getSeed dp) (randomSeed fused)
      \<and> fusedField (map topPDecay configs) (getTopPDecay dp) (topPDecay fused)
      \<and> fusedField (map topPMin configs) (getTopPMin dp) (topPMin fused)
      \<and> fusedField (map topPResetIds configs) (getTopPResetId dp) (topPResetIds fused)
      \<and> fusedField (map beamSearchDiversityRate configs) (getBeamSearchDiversity dp)
            (beamSearchDiversityRate fused)
      \<and> fusedField (map lengthPenalty configs) (getLengthPenalty dp) (lengthPenalty fused)
      \<and> fusedField (map earlyStopping configs) (getEarlyStopping dp) (earlyStopping fused)
      \<and> fusedField (map topKMedusaHeads configs) (getTopKMedusaHeads dp) (topKMedusaHeads fused)
      \<and> fusedField (map draftAcceptanceThreshold configs) 0 (draftAcceptanceThreshold fused))"

text \<open>Broadcasting one config's scalars to batch size \<open>n\<close>.\<close>

definition broadcastField :: "nat \<Rightarrow> 'a list option \<Rightarrow> 'a list option" where
  "broadcastField n field = map_option (\<lambda>v. replicate n (hd v)) field"

definition broadcastConfig :: "nat \<Rightarrow> 'f SamplingConfig \<Rightarrow> 'f SamplingConfig" where
  "broadcastConfig n c =
     \<lparr> beamWidth = beamWidth c,
       temperature = broadcastField n (temperature c),
       minLength = broadcastField n (minLength c),
       repetitionPenalty = broadcastField n (repetitionPenalty c),
       presencePenalty = broadcastField n (presencePenalty c),
       frequencyPenalty = broadcastField n (frequencyPenalty c),
       topK = broadcastField n (topK c),
       topP = broadcastField n (topP c),
       randomSeed = broadcastField n (randomSeed c),
       topPDecay = broadcastField n (topPDecay c),
       topPMin = broadcastField n (topPMin c),
       topPResetIds = broadcastField n (topPResetIds c),
       beamSearchDiversityRate = broadcastField n (beamSearchDiversityRate c),
       lengthPenalty = broadcastField n (lengthPenalty c),
       earlyStopping = broadcastField n (earlyStopping c),
       draftAcceptanceThreshold = broadcastField n (draftAcceptanceThreshold c),
       topKMedusaHeads = broadcastField n (topKMedusaHeads c),
       normalizeLogProbs = normalizeLogProbs c \<rparr>"

text \<open>Every tunable field is specified, as a vector of one value.\<close>

definition specifiedScalar :: "'a list option \<Rightarrow> bool" where
  "specifiedScalar field = (case field of None \<Rightarrow> False | Some v \<Rightarrow> length v = 1)"

definition fullySpecified :: "'f SamplingConfig \<Rightarrow> bool" where
  "fullySpecified c =
     (specifiedScalar (temperature c) \<and> specifiedScalar (minLength c)
      \<and> specifiedScalar (repetitionPenalty c) \<and> specifiedScalar (presencePenalty c)
      \<and> specifiedScalar (frequencyPenalty c) \<and> specifiedScalar (topK c)
      \<and> specifiedScalar (topP c) \<and> specifiedScalar (randomSeed c)
      \<and> specifiedScalar (topPDecay c) \<and> specifiedScalar (topPMin c)
      \<and> specifiedScalar (topPResetIds c) \<and> specifiedScalar (beamSearchDiversityRate c)
      \<and> specifiedScalar (lengthPenalty c) \<and> specifiedScalar (earlyStopping c)
      \<and> specifiedScalar (topKMedusaHeads c) \<and> specifiedScalar (draftAcceptanceThreshold c))"

text \<open>Closed forms of the two loops, used to state what \<open>fuseValues\<close> returns.\<close>

definition valueOrDefault :: "'a \<Rightarrow> 'a list option \<Rightarrow> 'a" where
  "valueOrDefault d field = (case field of None \<Rightarrow> d | Some v \<Rightarrow> hd v)"

definition fusedValues :: "nat \<Rightarrow> (nat \<Rightarrow> 'a list option) \<Rightarrow> 'a \<Rightarrow> 'a list option" where
  "fusedValues n accessor d =
     (if list_ex (\<lambda>ci. accessor ci \<noteq> None) [0..<n]
      then Some (map (\<lambda>ci. valueOrDefault d (accessor ci)) [0..<n]) else None)"

text \<open>The fused config when every check passes, field by field.\<close>

definition fuseAll :: "'f DefaultDecodingParams \<Rightarrow> ('f::zero) SamplingConfig list \<Rightarrow> 'f SamplingConfig" where
  "fuseAll dp configs =
     \<lparr> beamWidth = beamWidth (hd configs),
       temperature = fusedValues (length configs) (\<lambda>ci. temperature (configs ! ci)) (getTemperature dp),
       minLength = fusedValues (length configs) (\<lambda>ci. minLength (configs ! ci)) (getMinLength dp),
       repetitionPenalty = fusedValues (length configs) (\<lambda>ci. repetitionPenalty (configs ! ci)) (getRepetitionPenalty dp),
       presencePenalty = fusedValues (length configs) (\<lambda>ci. presencePenalty (configs ! ci)) (getPresencePenalty dp),
       frequencyPenalty = fusedValues (length configs) (\<lambda>ci. frequencyPenalty (configs ! ci)) (getFrequencyPenalty dp),
       topK = fusedValues (length configs) (\<lambda>ci. topK (configs ! ci)) (getTopK dp),
       topP = fusedValues (length configs) (\<lambda>ci. topP (configs ! ci)) (getTopP dp),
       randomSeed = fusedValues (length configs) (\<lambda>ci. randomSeed (configs ! ci)) (getSeed dp),
       topPDecay = fusedValues (length configs) (\<lambda>ci. topPDecay (configs ! ci)) (getTopPDecay dp),
       topPMin = fusedValues (length configs) (\<lambda>ci. topPMin (configs ! ci)) (getTopPMin dp),
       topPResetIds = fusedValues (length configs) (\<lambda>ci. topPResetIds (configs ! ci)) (getTopPResetId dp),
       beamSearchDiversityRate = fusedValues (length configs) (\<lambda>ci. beamSearchDiversityRate (configs ! ci)) (getBeamSearchDiversity dp),
       lengthPenalty = fusedValues (length configs) (\<lambda>ci. lengthPenalty (configs ! ci)) (getLengthPenalty dp),
       earlyStopping = fusedValues (length configs) (\<lambda>ci. earlyStopping (configs ! ci)) (getEarlyStopping dp),
       draftAcceptanceThreshold = fusedValues (length configs) (\<lambda>ci. draftAcceptanceThreshold (configs ! ci)) 0,
       topKMedusaHeads = fusedValues (length configs) (\<lambda>ci. topKMedusaHeads (configs ! ci)) (getTopKMedusaHeads dp),
       normalizeLogProbs = normalizeLogProbs (hd configs) \<rparr>"

text \<open>A present field has exactly \<open>n\<close> entries.\<close>

definition presentLength :: "nat \<Rightarrow> 'a list option \<Rightarrow> bool" where
  "presentLength n field = (case field of None \<Rightarrow> True | Some v \<Rightarrow> length v = n)"

definition fusedShape :: "nat \<Rightarrow> 'f SamplingConfig \<Rightarrow> bool" where
  "fusedShape n c =
     (presentLength n (temperature c) \<and> presentLength n (minLength c)
      \<and> presentLength n (repetitionPenalty c) \<and> presentLength n (presencePenalty c)
      \<and> presentLength n (frequencyPenalty c) \<and> presentLength n (topK c)
      \<and> presentLength n (topP c) \<and> presentLength n (randomSeed c)
      \<and> presentLength n (topPDecay c) \<and> presentLength n (topPMin c)
      \<and> presentLength n (topPResetIds c) \<and> presentLength n (beamSearchDiversityRate c)
      \<and> presentLength n (lengthPenalty c) \<and> presentLength n (earlyStopping c)
      \<and> presentLength n (topKMedusaHeads c) \<and> presentLength n (draftAcceptanceThreshold c))"

text \<open>The constructor \<open>SamplingConfig(SizeType32 beamWidth = 1)\<close>: no field is set.\<close>

definition SamplingConfig_default :: "SizeType32 \<Rightarrow> 'f SamplingConfig" where
  "SamplingConfig_default bw =
     \<lparr> beamWidth = bw, temperature = None, minLength = None, repetitionPenalty = None,
       presencePenalty = None, frequencyPenalty = None, topK = None, topP = None,
       randomSeed = None, topPDecay = None, topPMin = None, topPResetIds = None,
       beamSearchDiversityRate = None, lengthPenalty = None, earlyStopping = None,
       draftAcceptanceThreshold = None, topKMedusaHeads = None, normalizeLogProbs = None \<rparr>"

text \<open>Sample defaults and requests on which the properties below are evaluated.\<close>

definition sampleDefaults :: "real DefaultDecodingParams" where
  "sampleDefaults =
     \<lparr> getTemperature = 1, getMinLength = 1, getRepetitionPenalty = 1, getPresencePenalty = 0,
       getFrequencyPenalty = 0, getTopK = 0, getTopP = 0, getSeed = 0, getTopPDecay = 1,
       getTopPMin = 1 / 1000000, getTopPResetId = - 1, getBeamSearchDiversity = 0,
       getLengthPenalty = 0, getEarlyStopping = 1, getTopKMedusaHeads = [] \<rparr>"

definition requestA :: "real SamplingConfig" where
  "requestA = (SamplingConfig_default 1)
      \<lparr> temperature := Some [2], topK := Some [5], normalizeLogProbs := Some True \<rparr>"

definition requestB :: "real SamplingConfig" where
  "requestB = (SamplingConfig_default 4)
      \<lparr> topK := Some [7], normalizeLogProbs := Some False \<rparr>"

definition requestBad :: "real SamplingConfig" where
  "requestBad = (SamplingConfig_default 1) \<lparr> topP := Some [1 / 2, 1 / 4] \<rparr>"

definition requestFull :: "real SamplingConfig" where
  "requestFull =
     \<lparr> beamWidth = 2, temperature = Some [2], minLength = Some [3], repetitionPenalty = Some [5 / 4],
       presencePenalty = Some [1 / 10], frequencyPenalty = Some [1 / 5], topK = Some [5],
       topP = Some [9 / 10], randomSeed = Some [42], topPDecay = Some [1 / 2], topPMin = Some [1 / 100],
       topPResetIds = Some [7], beamSearchDiversityRate = Some [1 / 4], lengthPenalty = Some [1],
       earlyStopping = Some [0], draftAcceptanceThreshold = Some [1 / 8],
       topKMedusaHeads = Some [[3, 1]], normalizeLogProbs = Some True \<rparr>"

section \<open>layers/samplingLayer.cpp\<close>

subsection \<open>\<open>SamplingLayer::setup\<close>\<close>

text \<open>
  The layer's device buffers: the curand states and the seed buffer, both addressed by
  slot; the sub-layers (top-k, top-p) are kept abstract. Sizes and slot numbers are
  natural numbers. A curand state is what \<open>curand_init(seed, 0, 0, &state)\<close> leaves in
  it: \<open>curand_init\<close> is a parameter, a function of the seed.
\<close>

record ('st, 'sub) SamplingLayer =
  mDecodingMode :: DecodingMode
  mCurandStatesDevice :: "nat \<Rightarrow> 'st"
  mRandomSeedsDevice :: "64 word list"
  mSamplingLayers :: "'sub list"

record SamplingSetupParams =
  setup_randomSeed :: "64 word list option"

text \<open>
  Modelled from the spec: the kernels \<open>invokeCurandInitialize\<close> and
  \<open>invokeCurandBatchInitialize\<close> (\<open>kernels/decodingCommon\<close>) are not part of the
  sources at hand. By the comment in \<open>setup\<close> and the specification (a per-slot
  generator seeded by a per-slot or broadcast seed), the first initialises the state of
  every slot of \<open>batchSlots[0 .. batchSize)\<close> from the one seed, the second the state
  of slot \<open>batchSlots[bi]\<close> from \<open>randomSeeds[bi]\<close>.
\<close>

definition invokeCurandInitialize ::
  "(64 word \<Rightarrow> 'st) \<Rightarrow> (nat \<Rightarrow> 'st) \<Rightarrow> nat list \<Rightarrow> nat \<Rightarrow> 64 word \<Rightarrow> (nat \<Rightarrow> 'st)" where
  "invokeCurandInitialize curand_init states batchSlots batchSize randomSeed' =
     fold (\<lambda>bi st. st(batchSlots ! bi := curand_init randomSeed')) [0..<batchSize] states"

definition invokeCurandBatchInitialize ::
  "(64 word \<Rightarrow> 'st) \<Rightarrow> (nat \<Rightarrow> 'st) \<Rightarrow> nat list \<Rightarrow> nat \<Rightarrow> 64 word list \<Rightarrow> (nat \<Rightarrow> 'st)" where
  "invokeCurandBatchInitialize curand_init states batchSlots batchSize randomSeeds =
     fold (\<lambda>bi st. st(batchSlots ! bi := curand_init (randomSeeds ! bi))) [0..<batchSize] states"

text \<open>\<open>cudaAutoCpy(dst, src, n)\<close>: the first \<open>n\<close> entries of \<open>dst\<close> become those of \<open>src\<close>.\<close>

definition cudaAutoCpy :: "'a list \<Rightarrow> 'a list \<Rightarrow> nat \<Rightarrow> 'a list" where
  "cudaAutoCpy dst src n = take n src @ drop n dst"

text \<open>
  The loop over \<open>mSamplingLayers\<close>: each sub-layer's \<open>setup\<close> (a parameter) runs in
  turn; the first exception ends the loop and leaves the later sub-layers untouched.
\<close>

fun setupLayers :: "('sub \<Rightarrow> error + 'sub) \<Rightarrow> 'sub list \<Rightarrow> error option \<times> 'sub list" where
  "setupLayers layerSetup [] = (None, [])"
| "setupLayers layerSetup (layer # layers) =
     (case layerSetup layer of
        Inl e \<Rightarrow> (Some e, layer # layers)
      | Inr layer' \<Rightarrow>
          (case setupLayers layerSetup layers of (r, layers') \<Rightarrow> (r, layer' # layers')))"

text \<open>
  \<open>setup\<close> returns the exception thrown, if any, and the layer as the call leaves it:
  device buffers written before a throw stay written. Errors of the CUDA runtime
  (\<open>sync_check_cuda_error\<close>) are not modelled.
\<close>

definition SamplingLayer_setup ::
  "(64 word \<Rightarrow> 'st) \<Rightarrow> (nat \<Rightarrow> nat \<Rightarrow> nat list \<Rightarrow> SamplingSetupParams \<Rightarrow> 'sub \<Rightarrow> error + 'sub) \<Rightarrow>
   nat \<Rightarrow> nat \<Rightarrow> nat list \<Rightarrow> SamplingSetupParams \<Rightarrow> ('st, 'sub) SamplingLayer \<Rightarrow>
   error option \<times> ('st, 'sub) SamplingLayer" where
  "SamplingLayer_setup curand_init layerSetup batchSize beamWidth' batchSlots setupParams this =
     (case
        (case setup_randomSeed setupParams of
           Some seeds \<Rightarrow>
             if length seeds = 1
             then Inr (this\<lparr> mCurandStatesDevice :=
                         invokeCurandInitialize curand_init (mCurandStatesDevice this)
                           batchSlots batchSize (hd seeds) \<rparr>)
             else if length seeds = batchSize
             then Inr (this\<lparr> mRandomSeedsDevice :=
                               cudaAutoCpy (mRandomSeedsDevice this) seeds batchSize,
                            mCurandStatesDevice :=
                               invokeCurandBatchInitialize curand_init (mCurandStatesDevice this)
                                 batchSlots batchSize
                                 (cudaAutoCpy (mRandomSeedsDevice this) seeds batchSize) \<rparr>)
             else Inl RandomSeedSizeMismatch
         | None \<Rightarrow>
             Inr (this\<lparr> mCurandStatesDevice :=
                        invokeCurandInitialize curand_init (mCurandStatesDevice this)
                          batchSlots batchSize 0 \<rparr>))
      of
        Inl e \<Rightarrow> (Some e, this)
      | Inr this' \<Rightarrow>
          (case setupLayers (layerSetup batchSize beamWidth' batchSlots setupParams)
                  (mSamplingLayers this') of
             (r, layers') \<Rightarrow> (r, this'\<lparr> mSamplingLayers := layers' \<rparr>)))"

subsection \<open>\<open>SamplingLayer::forward\<close>\<close>

text \<open>
  The flag \<open>forward\<close> computes: \<open>cumLogProbs\<close> and \<open>outputLogProbs\<close> are null
  pointers when the output tensors are absent.
\<close>

definition skipSoftMax :: "DecodingMode \<Rightarrow> 'a option \<Rightarrow> 'b option \<Rightarrow> bool" where
  "skipSoftMax mode cumLogProbs outputLogProbs =
     (let skipTopP = \<not> isTopP mode
      in skipTopP \<and> cumLogProbs = None \<and> outputLogProbs = None)"

text \<open>
  Modelled from the spec: the kernel \<open>invokeAddBiasSoftMax\<close> and the top-k selection
  are not part of the sources at hand. The specification asks for a softmax over a
  slot's logits unless it is skipped, and for an arg-max selection when it is skipped.
  Logits and probabilities are real numbers (rounding of \<open>float\<close> and \<open>half\<close> is not
  modelled); the softmax subtracts the row's maximum, as the numerically stable form
  does. Masking (finished beams, padding) is the same on both paths and is part of the
  row the functions receive.
\<close>

definition softmax :: "real list \<Rightarrow> real list" where
  "softmax logits =
     (let m = Max (set logits); s = (\<Sum>y\<leftarrow>logits. exp (y - m))
      in map (\<lambda>x. exp (x - m) / s) logits)"

definition invokeAddBiasSoftMax :: "real list \<Rightarrow> bool \<Rightarrow> real list" where
  "invokeAddBiasSoftMax logits skip = (if skip then logits else softmax logits)"

text \<open>Arg-max: the first index holding the largest value (0 for an empty row).\<close>

fun argmaxLoop :: "real list \<Rightarrow> nat \<Rightarrow> nat \<Rightarrow> real \<Rightarrow> nat" where
  "argmaxLoop [] i best bestVal = best"
| "argmaxLoop (x # xs) i best bestVal =
     (if bestVal < x then argmaxLoop xs (Suc i) i x else argmaxLoop xs (Suc i) best bestVal)"

definition argmax :: "real list \<Rightarrow> nat" where
  "argmax row = (case row of [] \<Rightarrow> 0 | x # xs \<Rightarrow> argmaxLoop xs 1 0 x)"

text \<open>
  What \<open>forward\<close> leaves for the sub-layers, for one slot: the flag \<open>probs_computed\<close>
  and the buffer, which holds probabilities or the untouched logits.
\<close>

definition SamplingLayer_forward ::
  "('st, 'sub) SamplingLayer \<Rightarrow> 'a option \<Rightarrow> 'b option \<Rightarrow> real list \<Rightarrow> bool \<times> real list" where
  "SamplingLayer_forward this cumLogProbs outputLogProbs logits =
     (let skip = skipSoftMax (mDecodingMode this) cumLogProbs outputLogProbs;
          probs_computed = \<not> skip
      in (probs_computed, invokeAddBiasSoftMax logits skip))"

text \<open>A sample layer (seeds as states, one sub-layer whose setup succeeds) for evaluation.\<close>

definition sampleLayer :: "(64 word, unit) SamplingLayer" where
  "sampleLayer = \<lparr> mDecodingMode = TopK, mCurandStatesDevice = (\<lambda>slot. 99),
                   mRandomSeedsDevice = [0, 0, 0, 0], mSamplingLayers = [()] \<rparr>"

definition sampleLayerSetup ::
  "nat \<Rightarrow> nat \<Rightarrow> nat list \<Rightarrow> SamplingSetupParams \<Rightarrow> unit \<Rightarrow> error + unit" where
  "sampleLayerSetup batchSize bw batchSlots p layer = Inr layer"

section \<open>Stop criteria (kernels/stopCriteriaKernels, tests/kernels/stopCriteriaKernelsTest.cpp)\<close>

text \<open>
  Modelled from the spec: \<open>FinishedState\<close> (\<open>kernels/decodingCommon.h\<close>) is not part
  of the sources at hand. The specification gives the status of a (slot, beam) as one of
  not finished, finished by end token, finished by maximum length, finished by stop
  words; the test uses \<open>empty()\<close>, \<open>isFinished()\<close>, \<open>isFinishedMaxLength()\<close> and
  \<open>isFinishedStopWords()\<close>.
\<close>

datatype FinishedState = NotFinished | FinishedEos | FinishedMaxLength | FinishedStopWords

definition empty_state :: FinishedState where "empty_state = NotFinished"

definition isFinished :: "FinishedState \<Rightarrow> bool" where
  "isFinished st = (st \<noteq> NotFinished)"

definition isFinishedMaxLength :: "FinishedState \<Rightarrow> bool" where
  "isFinishedMaxLength st = (st = FinishedMaxLength)"

definition isFinishedStopWords :: "FinishedState \<Rightarrow> bool" where
  "isFinishedStopWords st = (st = FinishedStopWords)"

text \<open>
  The buffers are addressed by slot, or by slot and beam, as the specification's data
  model has them (the flat layout \<open>slot * beamWidth + beam\<close> of the test is left out).
  The active slots are the first \<open>batchSize\<close> entries of the slot table.
\<close>

definition activeSlots :: "nat list \<Rightarrow> nat \<Rightarrow> nat list" where
  "activeSlots batchSlots batchSize = take batchSize batchSlots"

text \<open>
  Modelled from the spec: the kernel \<open>invokeLengthCriterion\<close> is not part of the
  sources at hand. Per slot and beam, data-parallel over the active slots: a beam whose
  current length is at least the slot's sequence-length limit is marked finished by
  maximum length; a finished state is sticky, so every other state is left as it is;
  the slot's finished-sum is recomputed as the count of its finished beams.
\<close>

definition lengthCriterionBeam :: "FinishedState \<Rightarrow> int \<Rightarrow> int \<Rightarrow> FinishedState" where
  "lengthCriterionBeam st sequenceLength sequenceLimitLength =
     (if sequenceLimitLength \<le> sequenceLength then FinishedMaxLength else st)"

definition invokeLengthCriterion ::
  "(nat \<Rightarrow> nat \<Rightarrow> FinishedState) \<Rightarrow> (nat \<Rightarrow> int) \<Rightarrow> (nat \<Rightarrow> int) \<Rightarrow> (nat \<Rightarrow> nat \<Rightarrow> int) \<Rightarrow>
   nat list \<Rightarrow> nat \<Rightarrow> nat \<Rightarrow> (nat \<Rightarrow> nat \<Rightarrow> FinishedState) \<times> (nat \<Rightarrow> int)" where
  "invokeLengthCriterion finished finishedSum sequenceLimitLength sequenceLengths
       batchSlots batchSize beamWidth' =
     (let finished' = (\<lambda>slot beam.
            if slot \<in> set (activeSlots batchSlots batchSize) \<and> beam < beamWidth'
            then lengthCriterionBeam (finished slot beam) (sequenceLengths slot beam)
                   (sequenceLimitLength slot)
            else finished slot beam);
          finishedSum' = (\<lambda>slot.
            if slot \<in> set (activeSlots batchSlots batchSize)
            then int (length (filter (\<lambda>beam. isFinished (finished' slot beam)) [0..<beamWidth']))
            else finishedSum slot)
      in (finished', finishedSum'))"

text \<open>
  \<open>verifyMaxSeqLenStopCriteriaResults\<close> of the test, as a check that returns whether
  every expectation holds.
\<close>

definition verifyMaxSeqLenStopCriteriaResults ::
  "(nat \<Rightarrow> nat \<Rightarrow> FinishedState) \<Rightarrow> (nat \<Rightarrow> int) \<Rightarrow> (nat \<Rightarrow> int) \<Rightarrow> (nat \<Rightarrow> nat \<Rightarrow> int) \<Rightarrow>
   nat list \<Rightarrow> nat \<Rightarrow> nat \<Rightarrow> bool" where
  "verifyMaxSeqLenStopCriteriaResults finished finishedSum sequenceLengthLimits sequenceLengths
       batchSlots batchSize beamWidth' =
     list_all (\<lambda>batchIdx.
        let batchSlot = batchSlots ! batchIdx;
            limitExceeded = (\<lambda>beamIdx. sequenceLengthLimits batchSlot \<le> sequenceLengths batchSlot beamIdx);
            refSumFinished = int (length (filter limitExceeded [0..<beamWidth']))
        in list_all (\<lambda>beamIdx. limitExceeded beamIdx \<longrightarrow>
                        isFinishedMaxLength (finished batchSlot beamIdx)) [0..<beamWidth']
           \<and> refSumFinished = finishedSum batchSlot)
       [0..<batchSize]"

text \<open>
  Modelled from the spec: the kernel \<open>invokeStopWordsCriterion\<close> is not part of the
  sources at hand. The tail of the emitted sequence is read backward from the current
  length and compared with a stop phrase, last token first; the beam is marked finished
  by stop words when some phrase of its slot matches. An empty word is no phrase: the
  test's \<open>initData\<close> writes no entry for it ("Do not add value if stop words is empty")
  and expects such a slot to stay unfinished.
\<close>

fun matchBackward :: "int list \<Rightarrow> nat \<Rightarrow> int list \<Rightarrow> bool" where
  "matchBackward outputIds pos [] = True"
| "matchBackward outputIds pos (token # earlier) =
     (0 < pos \<and> pos \<le> length outputIds \<and> outputIds ! (pos - 1) = token
      \<and> matchBackward outputIds (pos - 1) earlier)"

definition stopWordMatches :: "int list \<Rightarrow> nat \<Rightarrow> int list \<Rightarrow> bool" where
  "stopWordMatches outputIds sequenceLength word =
     (word \<noteq> [] \<and> matchBackward outputIds sequenceLength (rev word))"

definition invokeStopWordsCriterion ::
  "(nat \<Rightarrow> nat \<Rightarrow> int list) \<Rightarrow> (nat \<Rightarrow> int list list) \<Rightarrow> (nat \<Rightarrow> nat \<Rightarrow> FinishedState) \<Rightarrow>
   (nat \<Rightarrow> nat \<Rightarrow> nat) \<Rightarrow> nat list \<Rightarrow> nat \<Rightarrow> nat \<Rightarrow> (nat \<Rightarrow> nat \<Rightarrow> FinishedState)" where
  "invokeStopWordsCriterion outputIds stopWords finished sequenceLengths
       batchSlots batchSize beamWidth' =
     (\<lambda>slot beam.
        if slot \<in> set (activeSlots batchSlots batchSize) \<and> beam < beamWidth'
           \<and> list_ex (stopWordMatches (outputIds slot beam) (sequenceLengths slot beam))
                (stopWords slot)
        then FinishedStopWords
        else finished slot beam)"

text \<open>
  The condition in the specification's words: a phrase occurs as a contiguous
  subsequence of the emitted tokens ending exactly at the current length.
\<close>

definition endsWithPhrase :: "int list \<Rightarrow> nat \<Rightarrow> int list \<Rightarrow> bool" where
  "endsWithPhrase outputIds sequenceLength word =
     (word \<noteq> [] \<and> sequenceLength \<le> length outputIds
      \<and> suffix word (take sequenceLength outputIds))"

text \<open>
  \<open>isSubsequence\<close> of the test: \<open>std::search\<close> looks for the word anywhere in the
  \<open>n\<close> tokens from \<open>sequence\<close> on and the result is compared with the window's end.
  An empty word is found at the window's start, which differs from its end unless the
  window is empty too.
\<close>

definition isSubsequence :: "int list \<Rightarrow> nat \<Rightarrow> int list \<Rightarrow> bool" where
  "isSubsequence sequence n subsequence =
     (if subsequence = [] then n \<noteq> 0 else sublist subsequence (take n sequence))"

text \<open>
  \<open>verifyStopWordsStopCriteriaResults\<close> of the test: each word is searched in the
  window of \<open>wordLen\<close> tokens that starts at \<open>offset = seqLen - wordLen\<close> and so ends at
  the current length; a found word must have finished the beam by stop words, and a
  beam where none is found must not be finished at all. The loop over the words stops at
  the first one found. For a word longer than the sequence the test would read before
  the buffer, and the properties below are stated for words that fit.
\<close>

definition verifyStopWordsStopCriteriaResults ::
  "(nat \<Rightarrow> nat \<Rightarrow> int list) \<Rightarrow> (nat \<Rightarrow> int list list) \<Rightarrow> (nat \<Rightarrow> nat \<Rightarrow> FinishedState) \<Rightarrow>
   (nat \<Rightarrow> nat \<Rightarrow> nat) \<Rightarrow> nat list \<Rightarrow> nat \<Rightarrow> nat \<Rightarrow> bool" where
  "verifyStopWordsStopCriteriaResults outputIds stopWords finished sequenceLengths
       batchSlots batchSize beamWidth' =
     list_all (\<lambda>bi.
        let batchSlot = batchSlots ! bi in
        list_all (\<lambda>bwi.
           let seqLen = sequenceLengths batchSlot bwi;
               found = list_ex (\<lambda>word.
                           isSubsequence (drop (seqLen - length word) (outputIds batchSlot bwi))
                             (length word) word)
                         (stopWords batchSlot)
           in if found then isFinishedStopWords (finished batchSlot bwi)
              else \<not> isFinished (finished batchSlot bwi))
          [0..<beamWidth'])
       [0..<batchSize]"

section \<open>Speculative tree verification (Medusa)\<close>

text \<open>
  Modelled from the spec: the Medusa decoding layer and its verification kernel are not
  part of the sources at hand; only the test \<open>MedusaSimpleTest\<close> with its inputs and
  expected outputs is. A path is a sequence of tree-node indices starting at the root
  (node 0), \<open>-1\<close> marking an unused entry. Node \<open>n > 0\<close> carries the draft token
  \<open>draftIds[n - 1]\<close>; \<open>targetIds[n]\<close> is the target model's realised choice after node
  \<open>n\<close>. Verification walks each path from the root: the root is accepted, and a further
  node is accepted while it is used and its draft token equals the target model's
  choice after the node before it. The longest accepted prefix wins, the first-listed
  path among equals; the target model's choices along the accepted prefix are the
  tokens appended to the history. A path entry outside the tree is an invariant
  violation.
\<close>

datatype verifyError = PathOutsideTree

definition nodeToken :: "int list \<Rightarrow> int \<Rightarrow> verifyError + int" where
  "nodeToken tokens node =
     (if 0 \<le> node \<and> nat node < length tokens then Inr (tokens ! nat node)
      else Inl PathOutsideTree)"

fun acceptNodes :: "int list \<Rightarrow> int list \<Rightarrow> int \<Rightarrow> int list \<Rightarrow> verifyError + nat" where
  "acceptNodes draftIds targetIds prev [] = Inr 0"
| "acceptNodes draftIds targetIds prev (node # rest) =
     (if node = - 1 then Inr 0
      else case nodeToken draftIds (node - 1) of
             Inl e \<Rightarrow> Inl e
           | Inr draftToken \<Rightarrow>
               (case nodeToken targetIds prev of
                  Inl e \<Rightarrow> Inl e
                | Inr targetToken \<Rightarrow>
                    if draftToken = targetToken
                    then (case acceptNodes draftIds targetIds node rest of
                            Inl e \<Rightarrow> Inl e
                          | Inr k \<Rightarrow> Inr (Suc k))
                    else Inr 0))"

definition pathAcceptedLength :: "int list \<Rightarrow> int list \<Rightarrow> int list \<Rightarrow> verifyError + nat" where
  "pathAcceptedLength draftIds targetIds path =
     (case path of
        [] \<Rightarrow> Inr 0
      | rootNode # rest \<Rightarrow>
          if rootNode = - 1 then Inr 0
          else case acceptNodes draftIds targetIds rootNode rest of
                 Inl e \<Rightarrow> Inl e
               | Inr k \<Rightarrow> Inr (Suc k))"

fun allAcceptedLengths :: "int list \<Rightarrow> int list \<Rightarrow> int list list \<Rightarrow> verifyError + nat list" where
  "allAcceptedLengths draftIds targetIds [] = Inr []"
| "allAcceptedLengths draftIds targetIds (path # paths) =
     (case pathAcceptedLength draftIds targetIds path of
        Inl e \<Rightarrow> Inl e
      | Inr k \<Rightarrow>
          (case allAcceptedLengths draftIds targetIds paths of
             Inl e \<Rightarrow> Inl e
           | Inr ks \<Rightarrow> Inr (k # ks)))"

text \<open>The longest accepted length and the first path that reaches it.\<close>

fun bestPathLoop :: "nat list \<Rightarrow> nat \<Rightarrow> nat \<Rightarrow> nat \<Rightarrow> nat \<times> nat" where
  "bestPathLoop [] i bestPath bestLength = (bestPath, bestLength)"
| "bestPathLoop (k # ks) i bestPath bestLength =
     (if bestLength < k then bestPathLoop ks (Suc i) i k
      else bestPathLoop ks (Suc i) bestPath bestLength)"

fun acceptedTokens :: "int list \<Rightarrow> int list \<Rightarrow> verifyError + int list" where
  "acceptedTokens targetIds [] = Inr []"
| "acceptedTokens targetIds (node # rest) =
     (case nodeToken targetIds node of
        Inl e \<Rightarrow> Inl e
      | Inr token \<Rightarrow>
          (case acceptedTokens targetIds rest of
             Inl e \<Rightarrow> Inl e
           | Inr tokens \<Rightarrow> Inr (token # tokens)))"

record MedusaVerdict =
  acceptedLength :: nat
  bestPathIdx :: nat
  outputIds_new :: "int list"

definition verifyPaths ::
  "int list list \<Rightarrow> int list \<Rightarrow> int list \<Rightarrow> int list \<Rightarrow> verifyError + MedusaVerdict" where
  "verifyPaths paths draftIds targetIds history =
     (case allAcceptedLengths draftIds targetIds paths of
        Inl e \<Rightarrow> Inl e
      | Inr ks \<Rightarrow>
          (case bestPathLoop ks 0 0 0 of
             (best, len) \<Rightarrow>
               (case acceptedTokens targetIds (take len (paths ! best)) of
                  Inl e \<Rightarrow> Inl e
                | Inr tokens \<Rightarrow>
                    Inr \<lparr> acceptedLength = len, bestPathIdx = best,
                          outputIds_new = history @ tokens \<rparr>)))"

section \<open>Counts, sample buffers and test data used by the properties\<close>

text \<open>Two counts over the beams of a slot: those at or over the slot's limit, and those finished.\<close>

definition beamsAtLimit :: "(nat \<Rightarrow> int) \<Rightarrow> (nat \<Rightarrow> nat \<Rightarrow> int) \<Rightarrow> nat \<Rightarrow> nat \<Rightarrow> int" where
  "beamsAtLimit sequenceLimitLength sequenceLengths slot beamWidth' =
     int (length (filter (\<lambda>beam. sequenceLimitLength slot \<le> sequenceLengths slot beam)
                    [0..<beamWidth']))"

definition finishedBeams :: "(nat \<Rightarrow> nat \<Rightarrow> FinishedState) \<Rightarrow> nat \<Rightarrow> nat \<Rightarrow> int" where
  "finishedBeams finished slot beamWidth' =
     int (length (filter (\<lambda>beam. isFinished (finished slot beam)) [0..<beamWidth']))"

text \<open>Sample buffers: one slot, one beam of length 3 under a limit of 10, finished by end token.\<close>

definition eosFinished :: "nat \<Rightarrow> nat \<Rightarrow> FinishedState" where
  "eosFinished slot beam = FinishedEos"

definition noneFinished :: "nat \<Rightarrow> nat \<Rightarrow> FinishedState" where
  "noneFinished slot beam = empty_state"

definition zeroSum :: "nat \<Rightarrow> int" where
  "zeroSum slot = 0"

definition limitTen :: "nat \<Rightarrow> int" where
  "limitTen slot = 10"

definition lengthThree :: "nat \<Rightarrow> nat \<Rightarrow> int" where
  "lengthThree slot beam = 3"

definition lengthsByBeam :: "nat \<Rightarrow> nat \<Rightarrow> int" where
  "lengthsByBeam slot beam = (if beam = 0 then 12 else 3)"

text \<open>
  Sample buffers of the test \<open>stopWordsCriteriaBS1MultipleTokensMultipleWordsMatchTest\<close>:
  slot 0 holds the tokens 0 .. 15 and the stop words \<open>{1, 4}, {2, 3}, {13, 14, 15}\<close>.
\<close>

definition testOutputIds :: "nat \<Rightarrow> nat \<Rightarrow> int list" where
  "testOutputIds slot beam = [0, 1, 2, 3, 4, 5, 6, 7, 8, 9, 10, 11, 12, 13, 14, 15]"

definition testStopWords :: "nat \<Rightarrow> int list list" where
  "testStopWords slot = (if slot = 0 then [[1, 4], [2, 3], [13, 14, 15]] else [[]])"

definition onePhrase :: "nat \<Rightarrow> int list list" where
  "onePhrase slot = [[13, 14, 15]]"

definition stopWordsFinished :: "nat \<Rightarrow> nat \<Rightarrow> FinishedState" where
  "stopWordsFinished slot beam = FinishedStopWords"

definition threeOutputIds :: "nat \<Rightarrow> nat \<Rightarrow> int list" where
  "threeOutputIds slot beam = [1, 2, 3]"

definition phraseNine :: "nat \<Rightarrow> int list list" where
  "phraseNine slot = [[9]]"

definition lengthThreeTokens :: "nat \<Rightarrow> nat \<Rightarrow> nat" where
  "lengthThreeTokens slot beam = 3"

definition lengthSixteen :: "nat \<Rightarrow> nat \<Rightarrow> nat" where
  "lengthSixteen slot beam = 16"

definition lengthFifteen :: "nat \<Rightarrow> nat \<Rightarrow> nat" where
  "lengthFifteen slot beam = 15"

text \<open>
  The data of \<open>MedusaSimpleTest\<close>: the path tables and draft tokens (\<open>params.outputIds\<close>,
  copied into the draft-token buffer) of its six requests, and the target model's
  choices, the arg-max of the four logit rows of \<open>mTestLogitsInit\<close>.
\<close>

definition testPaths :: "int list list list" where
  "testPaths = [[[0, 1, 2], [0, 3, - 1]], [[0, 1, - 1], [0, - 1, - 1]], [[0, 1, 3]],
                [[0, 2, 3]], [[0, 2, - 1]], [[0, 3, - 1]]]"

definition testDraftIds :: "int list list" where
  "testDraftIds = [[4, 0, 2], [4, 0, 2], [4, 0, 0], [4, 4, 2], [4, 0, 2], [4, 0, 2]]"

definition testTargetIds :: "int list" where
  "testTargetIds = [4, 0, 2, 0]"

text \<open>The invariant of the scan for the best path, over the lengths seen so far.\<close>

definition bestSoFar :: "nat list \<Rightarrow> nat \<Rightarrow> nat \<Rightarrow> bool" where
  "bestSoFar seen best len =
     (list_all (\<lambda>k. k \<le> len) seen
      \<and> list_all (\<lambda>k. k < len) (take best seen)
      \<and> (if seen = [] then best = 0 \<and> len = 0 else best < length seen \<and> seen ! best = len))"

section \<open>Properties of the stage-list factory\<close>

lemma anyBitSet_kTopKTopP: "anyBitSet m kTopKTopP \<longleftrightarrow> anyBitSet m kTopK \<or> anyBitSet m kTopP"
  by (simp add: anyBitSet_def kTopKTopP_def bit.conj_disj_distrib or_eq_0_iff)

lemma isTopKorTopP_iff: "isTopKorTopP m \<longleftrightarrow> isTopK m \<or> isTopP m"
  by (simp add: isTopKorTopP_def isTopK_def isTopP_def anyBitSet_kTopKTopP)

lemma mode_flags_NoneMode:
  "\<not> isTopKorTopP NoneMode" "\<not> isBeamSearch NoneMode" "\<not> isMedusa NoneMode"
  by (simp_all add: isTopKorTopP_def isBeamSearch_def isMedusa_def anyBitSet_def NoneMode_def
      kNone_def)

lemma mode_flags_Medusa:
  "\<not> isTopKorTopP Medusa" "\<not> isBeamSearch Medusa" "isMedusa Medusa"
  by (simp_all add: isTopKorTopP_def isBeamSearch_def isMedusa_def anyBitSet_def Medusa_def
      kMedusa_def kTopKTopP_def kTopK_def kTopP_def kBeamSearch_def)

lemma mode_flags_TopK: "isTopK TopK"
  by (simp add: isTopK_def anyBitSet_def TopK_def kTopK_def)

lemma mode_flags_TopP_BeamSearch: "isTopP TopP" "isBeamSearch BeamSearch"
  by (simp_all add: isTopP_def isBeamSearch_def anyBitSet_def TopP_def BeamSearch_def kTopP_def
      kBeamSearch_def)

lemma mode_flags_Medusa_only: "\<not> isTopK Medusa" "\<not> isTopP Medusa"
  using mode_flags_Medusa(1) by (simp_all add: isTopKorTopP_iff)

lemma mode_flags_NoneMode_only: "\<not> isTopK NoneMode" "\<not> isTopP NoneMode"
  using mode_flags_NoneMode(1) by (simp_all add: isTopKorTopP_iff)

text \<open>
  C2. The stage-list factory: whenever \<open>createDecodingLayerTypes\<close> returns a list, the
  penalty layer is its first element; a mode with the top-k, top-p or beam-search bit
  yields Penalty, BanWords, Decoding, StopCriteria; the Medusa mode (and any mode with
  only the Medusa bit among the four named bits) yields Penalty, Decoding,
  StopCriteria; every other mode, \<open>None\<close> included, is the error "layer types are not
  defined", which \<open>createLayers\<close> passes on when the decoder is built, before any
  layer exists.
\<close>

theorem createDecodingLayerTypes_stage_order:
  "(\<forall>types. createDecodingLayerTypes mode = Inr types \<longrightarrow>
       types \<noteq> [] \<and> hd types = PENALTY_LAYER)
   \<and> (isTopK mode \<or> isTopP mode \<or> isBeamSearch mode \<longrightarrow>
        createDecodingLayerTypes mode
          = Inr [PENALTY_LAYER, BAN_WORDS_LAYER, DECODING_LAYER, STOP_CRITERIA_LAYER])
   \<and> createDecodingLayerTypes Medusa = Inr [PENALTY_LAYER, DECODING_LAYER, STOP_CRITERIA_LAYER]
   \<and> (isMedusa mode \<and> \<not> isTopK mode \<and> \<not> isTopP mode \<and> \<not> isBeamSearch mode \<longrightarrow>
        createDecodingLayerTypes mode = Inr [PENALTY_LAYER, DECODING_LAYER, STOP_CRITERIA_LAYER])
   \<and> (\<not> isTopK mode \<and> \<not> isTopP mode \<and> \<not> isBeamSearch mode \<and> \<not> isMedusa mode \<longrightarrow>
        createDecodingLayerTypes mode = Inl (LayerTypesNotDefined (mState mode))
        \<and> createLayers mode = Inl (LayerTypesNotDefined (mState mode)))
   \<and> createDecodingLayerTypes NoneMode = Inl (LayerTypesNotDefined 0)
   \<and> createLayers NoneMode = Inl (LayerTypesNotDefined 0)"
proof -
  have none: "createDecodingLayerTypes NoneMode = Inl (LayerTypesNotDefined 0)"
    by (simp add: createDecodingLayerTypes_def mode_flags_NoneMode) (simp add: NoneMode_def kNone_def)
  have medusa: "createDecodingLayerTypes Medusa
      = Inr [PENALTY_LAYER, DECODING_LAYER, STOP_CRITERIA_LAYER]"
    by (simp add: createDecodingLayerTypes_def mode_flags_Medusa)
  show ?thesis
    using none medusa
    by (auto simp: createDecodingLayerTypes_def createLayers_def isTopKorTopP_iff
        split: if_splits)
qed

theorem createDecodingLayerTypes_stage_order_witness:
  "isTopK TopK \<and> isTopP TopP \<and> isBeamSearch BeamSearch
   \<and> createDecodingLayerTypes TopK
        = Inr [PENALTY_LAYER, BAN_WORDS_LAYER, DECODING_LAYER, STOP_CRITERIA_LAYER]
   \<and> createDecodingLayerTypes TopP
        = Inr [PENALTY_LAYER, BAN_WORDS_LAYER, DECODING_LAYER, STOP_CRITERIA_LAYER]
   \<and> createDecodingLayerTypes BeamSearch
        = Inr [PENALTY_LAYER, BAN_WORDS_LAYER, DECODING_LAYER, STOP_CRITERIA_LAYER]
   \<and> hd [PENALTY_LAYER, BAN_WORDS_LAYER, DECODING_LAYER, STOP_CRITERIA_LAYER] = PENALTY_LAYER
   \<and> isMedusa Medusa \<and> \<not> isTopK Medusa \<and> \<not> isTopP Medusa \<and> \<not> isBeamSearch Medusa
   \<and> createDecodingLayerTypes Medusa = Inr [PENALTY_LAYER, DECODING_LAYER, STOP_CRITERIA_LAYER]
   \<and> \<not> isTopK NoneMode \<and> \<not> isTopP NoneMode \<and> \<not> isBeamSearch NoneMode \<and> \<not> isMedusa NoneMode
   \<and> createDecodingLayerTypes NoneMode = Inl (LayerTypesNotDefined (mState NoneMode))
   \<and> createLayers NoneMode = Inl (LayerTypesNotDefined (mState NoneMode))"
  using createDecodingLayerTypes_stage_order [of TopK]
    createDecodingLayerTypes_stage_order [of TopP]
    createDecodingLayerTypes_stage_order [of BeamSearch]
    createDecodingLayerTypes_stage_order [of Medusa]
    createDecodingLayerTypes_stage_order [of NoneMode]
    mode_flags_TopK mode_flags_TopP_BeamSearch mode_flags_Medusa mode_flags_Medusa_only
    mode_flags_NoneMode mode_flags_NoneMode_only
  by simp

section \<open>Properties of config fusion\<close>

lemma atLeastOneHasValue_iff:
  "atLeastOneHasValue accessor idxs \<longleftrightarrow> (\<exists>ci\<in>set idxs. accessor ci \<noteq> None)"
  by (induction idxs) auto

lemma pushValues_ok:
  "\<forall>ci\<in>set idxs. scalarOrAbsent (accessor ci) \<Longrightarrow>
   pushValues accessor d idxs values = Inr (values @ map (\<lambda>ci. valueOrDefault d (accessor ci)) idxs)"
  by (induction idxs arbitrary: "values")
     (auto simp: scalarOrAbsent_def valueOrDefault_def split: option.splits)

lemma pushValues_fail:
  "\<exists>ci\<in>set idxs. \<not> scalarOrAbsent (accessor ci) \<Longrightarrow>
   pushValues accessor d idxs values = Inl ConfigValueSizeNotOne"
  by (induction idxs arbitrary: "values")
     (auto simp: scalarOrAbsent_def split: option.splits)

lemma fuseValues_eq:
  "fuseValues configs accessor d =
     (if \<forall>ci<length configs. scalarOrAbsent (accessor ci)
      then Inr (fusedValues (length configs) accessor d)
      else Inl ConfigValueSizeNotOne)"
proof (cases "\<forall>ci<length configs. scalarOrAbsent (accessor ci)")
  case True
  then have "\<forall>ci\<in>set [0..<length configs]. scalarOrAbsent (accessor ci)" by simp
  from pushValues_ok [OF this, of d "[]"] True show ?thesis
    by (auto simp: fuseValues_def fusedValues_def atLeastOneHasValue_iff list_ex_iff)
next
  case False
  then obtain ci where ci: "ci < length configs" "\<not> scalarOrAbsent (accessor ci)" by blast
  then have ex: "\<exists>ci\<in>set [0..<length configs]. \<not> scalarOrAbsent (accessor ci)" by auto
  from ci have "accessor ci \<noteq> None" by (auto simp: scalarOrAbsent_def split: option.splits)
  with ci have "atLeastOneHasValue accessor [0..<length configs]"
    by (auto simp: atLeastOneHasValue_iff)
  with pushValues_fail [OF ex, of d "[]"] False show ?thesis
    by (simp add: fuseValues_def)
qed

lemma fusedValues_fusedField:
  assumes "\<forall>c\<in>set configs. scalarOrAbsent (f c)"
  shows "fusedField (map f configs) d (fusedValues (length configs) (\<lambda>ci. f (configs ! ci)) d)"
proof (cases "\<exists>ci<length configs. f (configs ! ci) \<noteq> None")
  case True
  then have "\<not> list_all (\<lambda>r. r = None) (map f configs)"
    by (auto simp: list_all_iff)
  moreover have "list_all (\<lambda>i. case map f configs ! i of
        None \<Rightarrow> map (\<lambda>ci. valueOrDefault d (f (configs ! ci))) [0..<length configs] ! i = d
      | Some x \<Rightarrow> x = [map (\<lambda>ci. valueOrDefault d (f (configs ! ci))) [0..<length configs] ! i])
      [0..<length (map f configs)]"
  proof (unfold list_all_iff, rule ballI)
    fix i assume "i \<in> set [0..<length (map f configs)]"
    then have i: "i < length configs" by simp
    then have "scalarOrAbsent (f (configs ! i))" using assms by simp
    then show "case map f configs ! i of
        None \<Rightarrow> map (\<lambda>ci. valueOrDefault d (f (configs ! ci))) [0..<length configs] ! i = d
      | Some x \<Rightarrow> x = [map (\<lambda>ci. valueOrDefault d (f (configs ! ci))) [0..<length configs] ! i]"
      using i
      by (cases "f (configs ! i)")
         (auto simp: scalarOrAbsent_def valueOrDefault_def length_Suc_conv)
  qed
  ultimately show ?thesis using True
    by (auto simp: fusedField_def fusedValues_def list_ex_iff)
next
  case False
  then have "list_all (\<lambda>r. r = None) (map f configs)"
    by (auto simp: list_all_iff in_set_conv_nth)
  with False show ?thesis
    by (auto simp: fusedField_def fusedValues_def list_ex_iff)
qed

lemma bindE_Inr [simp]: "bindE (Inr x) f = f x"
  by (simp add: bindE_def)

lemma bindE_Inl [simp]: "bindE (Inl e) f = Inl e"
  by (simp add: bindE_def)

lemma all_nth_scalar:
  "(\<forall>ci<length configs. scalarOrAbsent (f (configs ! ci))) \<longleftrightarrow> (\<forall>c\<in>set configs. scalarOrAbsent (f c))"
  by (metis in_set_conv_nth)

lemma SamplingConfig_fuse_ok:
  assumes "configs \<noteq> []" "\<forall>c\<in>set configs. singleRequestConfig c"
  shows "SamplingConfig_fuse dp configs = Inr (fuseAll dp configs)"
  using assms
  by (simp add: SamplingConfig_fuse_def fuseValues_eq all_nth_scalar singleRequestConfig_def fuseAll_def)

lemma SamplingConfig_fuse_fail:
  assumes "configs \<noteq> []" "\<not> (\<forall>c\<in>set configs. singleRequestConfig c)"
  shows "SamplingConfig_fuse dp configs = Inl ConfigValueSizeNotOne"
proof -
  from assms(2) obtain c where c: "c \<in> set configs" "\<not> singleRequestConfig c" by blast
  show ?thesis
    using assms(1) c
    unfolding SamplingConfig_fuse_def fuseValues_eq all_nth_scalar
    by (auto simp: singleRequestConfig_def)
qed

lemma singleRequest_samples:
  "singleRequestConfig requestA" "singleRequestConfig requestB" "\<not> singleRequestConfig requestBad"
  "fullySpecified requestFull"
  by (simp_all add: singleRequestConfig_def scalarOrAbsent_def requestA_def requestB_def
      requestBad_def SamplingConfig_default_def fullySpecified_def specifiedScalar_def requestFull_def)

lemma fuse_example:
  "SamplingConfig_fuse sampleDefaults [requestA, requestB] =
     Inr ((SamplingConfig_default 1)
        \<lparr> temperature := Some [2, 1], topK := Some [5, 7], normalizeLogProbs := Some True \<rparr>)"
  by (simp add: SamplingConfig_fuse_def fuseValues_def requestA_def requestB_def
      SamplingConfig_default_def sampleDefaults_def)

lemma fuseAll_fusedConfig:
  assumes "\<forall>c\<in>set configs. singleRequestConfig c"
  shows "fusedConfig dp configs (fuseAll dp configs)"
  using assms
  by (simp add: fusedConfig_def fuseAll_def fusedValues_fusedField singleRequestConfig_def)

lemma presentLength_fusedValues: "presentLength n (fusedValues n accessor d)"
  by (simp add: presentLength_def fusedValues_def)

lemma fuseAll_fusedShape: "fusedShape (length configs) (fuseAll dp configs)"
  by (simp add: fusedShape_def fuseAll_def presentLength_fusedValues)

lemma SamplingConfig_fuse_Inr_iff:
  "SamplingConfig_fuse dp configs = Inr fused \<longleftrightarrow>
     configs \<noteq> [] \<and> (\<forall>c\<in>set configs. singleRequestConfig c) \<and> fused = fuseAll dp configs"
proof (cases "configs = []")
  case True
  then show ?thesis by (simp add: SamplingConfig_fuse_def)
next
  case ne: False
  show ?thesis
  proof (cases "\<forall>c\<in>set configs. singleRequestConfig c")
    case True
    with ne SamplingConfig_fuse_ok [OF ne True, of dp] show ?thesis by auto
  next
    case False
    with ne SamplingConfig_fuse_fail [OF ne False, of dp] show ?thesis by auto
  qed
qed

lemma fusedValues_replicate:
  assumes "specifiedScalar (f c)" "0 < n"
  shows "fusedValues n (\<lambda>ci. f (replicate n c ! ci)) d = broadcastField n (f c)"
proof -
  from assms(1) obtain x where x: "f c = Some [x]"
    by (auto simp: specifiedScalar_def length_Suc_conv split: option.splits)
  have "map (\<lambda>ci. valueOrDefault d (f (replicate n c ! ci))) [0..<n] = replicate n x"
    by (rule nth_equalityI) (simp_all add: x valueOrDefault_def)
  moreover have "\<exists>ci<n. f (replicate n c ! ci) \<noteq> None"
    using assms(2) x by (intro exI [of _ 0]) simp
  ultimately show ?thesis
    by (auto simp: fusedValues_def broadcastField_def x list_ex_iff)
qed

lemma fuseAll_replicate:
  assumes "fullySpecified c" "0 < n"
  shows "fuseAll dp (replicate n c) = broadcastConfig n c"
proof -
  from assms(2) have hd: "hd (replicate n c) = c" by (cases n) simp_all
  show ?thesis
    using assms
    by (simp add: fuseAll_def broadcastConfig_def hd fullySpecified_def fusedValues_replicate)
qed

lemma specifiedScalar_scalarOrAbsent: "specifiedScalar field \<Longrightarrow> scalarOrAbsent field"
  by (cases field) (simp_all add: specifiedScalar_def scalarOrAbsent_def)

lemma fullySpecified_singleRequest: "fullySpecified c \<Longrightarrow> singleRequestConfig c"
  by (simp add: fullySpecified_def singleRequestConfig_def specifiedScalar_scalarOrAbsent)

text \<open>
  C1. The fusion contract. For a non-empty list of configs: when every config is a
  single-request config (each field absent or one scalar), the batch constructor
  returns a fused config in which every tunable field is absent if no request
  specifies it, and otherwise has one entry per request, the request's scalar where it
  specified the field and the field's default where it did not; when some config
  carries a vector of another length, the constructor fails its size check.
\<close>

theorem SamplingConfig_fusion_contract:
  assumes "configs \<noteq> []"
  shows "(list_all singleRequestConfig configs \<longrightarrow>
            (\<exists>fused. SamplingConfig_fuse dp configs = Inr fused \<and> fusedConfig dp configs fused))
       \<and> (\<not> list_all singleRequestConfig configs \<longrightarrow>
            SamplingConfig_fuse dp configs = Inl ConfigValueSizeNotOne)"
  using assms SamplingConfig_fuse_ok [of configs dp] SamplingConfig_fuse_fail [of configs dp]
    fuseAll_fusedConfig [of configs dp]
  by (auto simp: list_all_iff)

theorem SamplingConfig_fusion_contract_witness:
  "[requestA, requestB] \<noteq> [] \<and> list_all singleRequestConfig [requestA, requestB]
   \<and> (\<exists>fused. SamplingConfig_fuse sampleDefaults [requestA, requestB] = Inr fused
              \<and> fusedConfig sampleDefaults [requestA, requestB] fused)
   \<and> [requestA, requestBad] \<noteq> [] \<and> \<not> list_all singleRequestConfig [requestA, requestBad]
   \<and> SamplingConfig_fuse sampleDefaults [requestA, requestBad] = Inl ConfigValueSizeNotOne"
  using SamplingConfig_fusion_contract [of "[requestA, requestB]" sampleDefaults]
    SamplingConfig_fusion_contract [of "[requestA, requestBad]" sampleDefaults]
  by (simp add: singleRequest_samples)

text \<open>
  C9. The fused shape: whenever the constructor returns, the list was non-empty and
  every present field of the fused config has exactly one entry per input config; the
  length-1 broadcast form is never produced for a batch of another size.
\<close>

theorem fused_field_length_is_batch_size:
  assumes "SamplingConfig_fuse dp configs = Inr fused"
  shows "configs \<noteq> [] \<and> fusedShape (length configs) fused"
  using assms by (simp add: SamplingConfig_fuse_Inr_iff fuseAll_fusedShape)

theorem fused_field_length_is_batch_size_witness:
  "SamplingConfig_fuse sampleDefaults [requestB, requestB] = Inr (fuseAll sampleDefaults [requestB, requestB])
   \<and> fusedShape 2 (fuseAll sampleDefaults [requestB, requestB])
   \<and> topK (fuseAll sampleDefaults [requestB, requestB]) = Some [7, 7]"
proof -
  have h: "SamplingConfig_fuse sampleDefaults [requestB, requestB]
             = Inr (fuseAll sampleDefaults [requestB, requestB])"
    by (rule SamplingConfig_fuse_ok) (simp_all add: singleRequest_samples)
  have "topK (fuseAll sampleDefaults [requestB, requestB]) = Some [7, 7]"
    by (simp add: fuseAll_def fusedValues_def valueOrDefault_def requestB_def
        SamplingConfig_default_def)
  moreover have l: "length [requestB, requestB] = 2" by simp
  ultimately show ?thesis
    using h fused_field_length_is_batch_size [OF h, unfolded l] by blast
qed

text \<open>
  C10. First-config precedence: an empty list fails the constructor's first check, and
  the fused \<open>beamWidth\<close> and \<open>normalizeLogProbs\<close> are those of the first config,
  whatever the other configs hold.
\<close>

theorem fuse_first_config_precedence:
  "SamplingConfig_fuse dp [] = Inl ConfigsEmpty
   \<and> (SamplingConfig_fuse dp (c # cs) = Inr fused \<longrightarrow>
        beamWidth fused = beamWidth c \<and> normalizeLogProbs fused = normalizeLogProbs c)"
  by (auto simp: SamplingConfig_fuse_Inr_iff fuseAll_def) (simp add: SamplingConfig_fuse_def)

theorem fuse_first_config_precedence_witness:
  "SamplingConfig_fuse sampleDefaults [requestA, requestB]
      = Inr (fuseAll sampleDefaults [requestA, requestB])
   \<and> beamWidth (fuseAll sampleDefaults [requestA, requestB]) = 1
   \<and> beamWidth requestB = 4
   \<and> normalizeLogProbs (fuseAll sampleDefaults [requestA, requestB]) = Some True
   \<and> normalizeLogProbs requestB = Some False"
proof -
  have h: "SamplingConfig_fuse sampleDefaults [requestA, requestB]
             = Inr (fuseAll sampleDefaults [requestA, requestB])"
    by (rule SamplingConfig_fuse_ok) (simp_all add: singleRequest_samples)
  from fuse_first_config_precedence
    [of sampleDefaults requestA "[requestB]" "fuseAll sampleDefaults [requestA, requestB]"] h
  show ?thesis
    by (simp add: requestA_def requestB_def SamplingConfig_default_def)
qed

text \<open>
  C8. Fusion idempotence: fusing \<open>n \<ge> 1\<close> copies of a fully specified config yields
  the broadcast of that config to batch size \<open>n\<close>: every field the vector of \<open>n\<close>
  copies of its scalar, \<open>beamWidth\<close> (and \<open>normalizeLogProbs\<close>) unchanged.
\<close>

theorem fusion_idempotence:
  assumes "fullySpecified c" "1 \<le> n"
  shows "SamplingConfig_fuse dp (replicate n c) = Inr (broadcastConfig n c)"
proof -
  from assms(2) have ne: "replicate n c \<noteq> []" by (cases n) simp_all
  have "\<forall>x\<in>set (replicate n c). singleRequestConfig x"
    using assms(1) by (simp add: fullySpecified_singleRequest)
  from SamplingConfig_fuse_ok [OF ne this, of dp] assms show ?thesis
    by (simp add: fuseAll_replicate)
qed

theorem fusion_idempotence_witness:
  "fullySpecified requestFull \<and> (1::nat) \<le> 3
   \<and> SamplingConfig_fuse sampleDefaults [requestFull, requestFull, requestFull]
       = Inr \<lparr> beamWidth = 2, temperature = Some [2, 2, 2], minLength = Some [3, 3, 3],
               repetitionPenalty = Some [5 / 4, 5 / 4, 5 / 4],
               presencePenalty = Some [1 / 10, 1 / 10, 1 / 10],
               frequencyPenalty = Some [1 / 5, 1 / 5, 1 / 5], topK = Some [5, 5, 5],
               topP = Some [9 / 10, 9 / 10, 9 / 10], randomSeed = Some [42, 42, 42],
               topPDecay = Some [1 / 2, 1 / 2, 1 / 2], topPMin = Some [1 / 100, 1 / 100, 1 / 100],
               topPResetIds = Some [7, 7, 7], beamSearchDiversityRate = Some [1 / 4, 1 / 4, 1 / 4],
               lengthPenalty = Some [1, 1, 1], earlyStopping = Some [0, 0, 0],
               draftAcceptanceThreshold = Some [1 / 8, 1 / 8, 1 / 8],
               topKMedusaHeads = Some [[3, 1], [3, 1], [3, 1]], normalizeLogProbs = Some True \<rparr>"
proof -
  have r: "replicate 3 x = [x, x, x]" for x :: 'a
    by (simp add: numeral_3_eq_3)
  have b: "broadcastConfig 3 requestFull =
     \<lparr> beamWidth = 2, temperature = Some [2, 2, 2], minLength = Some [3, 3, 3],
               repetitionPenalty = Some [5 / 4, 5 / 4, 5 / 4],
               presencePenalty = Some [1 / 10, 1 / 10, 1 / 10],
               frequencyPenalty = Some [1 / 5, 1 / 5, 1 / 5], topK = Some [5, 5, 5],
               topP = Some [9 / 10, 9 / 10, 9 / 10], randomSeed = Some [42, 42, 42],
               topPDecay = Some [1 / 2, 1 / 2, 1 / 2], topPMin = Some [1 / 100, 1 / 100, 1 / 100],
               topPResetIds = Some [7, 7, 7], beamSearchDiversityRate = Some [1 / 4, 1 / 4, 1 / 4],
               lengthPenalty = Some [1, 1, 1], earlyStopping = Some [0, 0, 0],
               draftAcceptanceThreshold = Some [1 / 8, 1 / 8, 1 / 8],
               topKMedusaHeads = Some [[3, 1], [3, 1], [3, 1]], normalizeLogProbs = Some True \<rparr>"
    by (simp add: broadcastConfig_def broadcastField_def requestFull_def r)
  have h1: "fullySpecified requestFull" by (rule singleRequest_samples(4))
  have h2: "(1::nat) \<le> 3" by simp
  have "SamplingConfig_fuse sampleDefaults (replicate 3 requestFull)
          = Inr (broadcastConfig 3 requestFull)"
    by (rule fusion_idempotence [OF h1 h2])
  then show ?thesis
    unfolding r b using h1 h2 by blast
qed

section \<open>Properties of the sampling layer\<close>

lemma invokeCurandInitialize_Suc:
  "invokeCurandInitialize ci st slots (Suc n) seed
     = (invokeCurandInitialize ci st slots n seed)(slots ! n := ci seed)"
  by (simp add: invokeCurandInitialize_def)

lemma invokeCurandInitialize_slot:
  "bi < n \<Longrightarrow> invokeCurandInitialize ci st slots n seed (slots ! bi) = ci seed"
proof (induction n)
  case 0
  then show ?case by simp
next
  case (Suc n)
  then show ?case
    by (cases "bi = n") (auto simp: invokeCurandInitialize_Suc less_Suc_eq)
qed

lemma invokeCurandBatchInitialize_Suc:
  "invokeCurandBatchInitialize ci st slots (Suc n) seeds
     = (invokeCurandBatchInitialize ci st slots n seeds)(slots ! n := ci (seeds ! n))"
  by (simp add: invokeCurandBatchInitialize_def)

lemma invokeCurandBatchInitialize_slot:
  "bi < n \<Longrightarrow> n \<le> length slots \<Longrightarrow> distinct slots \<Longrightarrow>
   invokeCurandBatchInitialize ci st slots n seeds (slots ! bi) = ci (seeds ! bi)"
proof (induction n)
  case 0
  then show ?case by simp
next
  case (Suc n)
  show ?case
  proof (cases "bi = n")
    case True
    then show ?thesis by (simp add: invokeCurandBatchInitialize_Suc)
  next
    case False
    with Suc.prems have lt: "bi < n" by simp
    with Suc.prems have "slots ! bi \<noteq> slots ! n"
      by (simp add: nth_eq_iff_index_eq)
    with Suc.IH [OF lt] Suc.prems show ?thesis
      by (simp add: invokeCurandBatchInitialize_Suc)
  qed
qed

lemma setup_states_single:
  "setup_randomSeed p = Some [seed] \<Longrightarrow>
   mCurandStatesDevice (snd (SamplingLayer_setup ci ls n bw slots p this))
     = invokeCurandInitialize ci (mCurandStatesDevice this) slots n seed"
  by (simp add: SamplingLayer_setup_def split: prod.splits)

lemma setup_states_batch:
  "setup_randomSeed p = Some seeds \<Longrightarrow> length seeds \<noteq> 1 \<Longrightarrow> length seeds = n \<Longrightarrow>
   mCurandStatesDevice (snd (SamplingLayer_setup ci ls n bw slots p this))
     = invokeCurandBatchInitialize ci (mCurandStatesDevice this) slots n
         (seeds @ drop n (mRandomSeedsDevice this))"
  by (simp add: SamplingLayer_setup_def cudaAutoCpy_def split: prod.splits)

lemma setup_states_absent:
  "setup_randomSeed p = None \<Longrightarrow>
   mCurandStatesDevice (snd (SamplingLayer_setup ci ls n bw slots p this))
     = invokeCurandInitialize ci (mCurandStatesDevice this) slots n 0"
  by (simp add: SamplingLayer_setup_def split: prod.splits)

lemma setup_error_from_layers:
  "setup_randomSeed p = None \<or> (\<exists>seeds. setup_randomSeed p = Some seeds \<and> (length seeds = 1 \<or> length seeds = n)) \<Longrightarrow>
   fst (SamplingLayer_setup ci ls n bw slots p this)
     = fst (setupLayers (ls n bw slots p) (mSamplingLayers this))"
  by (auto simp: SamplingLayer_setup_def split: prod.splits option.splits)

lemma setup_mismatch:
  "setup_randomSeed p = Some seeds \<Longrightarrow> length seeds \<noteq> 1 \<Longrightarrow> length seeds \<noteq> n \<Longrightarrow>
   SamplingLayer_setup ci ls n bw slots p this = (Some RandomSeedSizeMismatch, this)"
  by (simp add: SamplingLayer_setup_def)

text \<open>
  C7. Random-seed setup. With one slot table entry per batch index and no slot listed
  twice: a seed vector of one value initialises the state of every active slot from that
  seed; a vector of \<open>batchSize\<close> values initialises the state of slot
  \<open>batchSlots[bi]\<close> from \<open>seeds[bi]\<close>; a vector of any other length throws the size
  mismatch and leaves the layer as it was, no state written; an absent vector
  initialises every active slot from seed 0. In the three accepted cases the seed step
  throws nothing: the call's exception, if any, is the sub-layers' own.
\<close>

theorem setup_random_seed:
  assumes len: "length batchSlots = batchSize" and dist: "distinct batchSlots"
  shows
   "(\<forall>seed. setup_randomSeed p = Some [seed] \<longrightarrow>
        (\<forall>bi<batchSize.
            mCurandStatesDevice (snd (SamplingLayer_setup ci ls batchSize bw batchSlots p this))
              (batchSlots ! bi) = ci seed)
        \<and> fst (SamplingLayer_setup ci ls batchSize bw batchSlots p this)
            = fst (setupLayers (ls batchSize bw batchSlots p) (mSamplingLayers this)))
    \<and> (\<forall>seeds. setup_randomSeed p = Some seeds \<and> length seeds = batchSize \<longrightarrow>
        (\<forall>bi<batchSize.
            mCurandStatesDevice (snd (SamplingLayer_setup ci ls batchSize bw batchSlots p this))
              (batchSlots ! bi) = ci (seeds ! bi))
        \<and> fst (SamplingLayer_setup ci ls batchSize bw batchSlots p this)
            = fst (setupLayers (ls batchSize bw batchSlots p) (mSamplingLayers this)))
    \<and> (\<forall>seeds. setup_randomSeed p = Some seeds \<and> length seeds \<noteq> 1 \<and> length seeds \<noteq> batchSize \<longrightarrow>
        SamplingLayer_setup ci ls batchSize bw batchSlots p this = (Some RandomSeedSizeMismatch, this))
    \<and> (setup_randomSeed p = None \<longrightarrow>
        (\<forall>bi<batchSize.
            mCurandStatesDevice (snd (SamplingLayer_setup ci ls batchSize bw batchSlots p this))
              (batchSlots ! bi) = ci 0)
        \<and> fst (SamplingLayer_setup ci ls batchSize bw batchSlots p this)
            = fst (setupLayers (ls batchSize bw batchSlots p) (mSamplingLayers this)))"
proof (intro conjI allI impI)
  fix seed bi assume "setup_randomSeed p = Some [seed]" "bi < batchSize"
  then show "mCurandStatesDevice (snd (SamplingLayer_setup ci ls batchSize bw batchSlots p this))
              (batchSlots ! bi) = ci seed"
    by (simp add: setup_states_single invokeCurandInitialize_slot)
next
  fix seed assume "setup_randomSeed p = Some [seed]"
  then show "fst (SamplingLayer_setup ci ls batchSize bw batchSlots p this)
            = fst (setupLayers (ls batchSize bw batchSlots p) (mSamplingLayers this))"
    by (intro setup_error_from_layers) simp
next
  fix seeds bi
  assume s: "setup_randomSeed p = Some seeds \<and> length seeds = batchSize" and bi: "bi < batchSize"
  show "mCurandStatesDevice (snd (SamplingLayer_setup ci ls batchSize bw batchSlots p this))
              (batchSlots ! bi) = ci (seeds ! bi)"
  proof (cases "length seeds = 1")
    case True
    with s bi have "bi = 0" by simp
    moreover from True obtain x where "seeds = [x]"
      by (cases seeds) auto
    ultimately have "setup_randomSeed p = Some [seeds ! bi]" using s by simp
    with bi show ?thesis
      by (simp add: setup_states_single invokeCurandInitialize_slot)
  next
    case False
    with s bi len dist show ?thesis
      by (simp add: setup_states_batch invokeCurandBatchInitialize_slot nth_append)
  qed
next
  fix seeds assume "setup_randomSeed p = Some seeds \<and> length seeds = batchSize"
  then show "fst (SamplingLayer_setup ci ls batchSize bw batchSlots p this)
            = fst (setupLayers (ls batchSize bw batchSlots p) (mSamplingLayers this))"
    by (intro setup_error_from_layers) simp
next
  fix seeds
  assume "setup_randomSeed p = Some seeds \<and> length seeds \<noteq> 1 \<and> length seeds \<noteq> batchSize"
  then show "SamplingLayer_setup ci ls batchSize bw batchSlots p this
      = (Some RandomSeedSizeMismatch, this)"
    by (simp add: setup_mismatch)
next
  fix bi assume "setup_randomSeed p = None" "bi < batchSize"
  then show "mCurandStatesDevice (snd (SamplingLayer_setup ci ls batchSize bw batchSlots p this))
              (batchSlots ! bi) = ci 0"
    by (simp add: setup_states_absent invokeCurandInitialize_slot)
next
  assume "setup_randomSeed p = None"
  then show "fst (SamplingLayer_setup ci ls batchSize bw batchSlots p this)
            = fst (setupLayers (ls batchSize bw batchSlots p) (mSamplingLayers this))"
    by (intro setup_error_from_layers) simp
qed

theorem setup_random_seed_witness:
  "length [0, 2 :: nat] = 2 \<and> distinct [0, 2 :: nat]
   \<and> mCurandStatesDevice (snd (SamplingLayer_setup (\<lambda>seed. seed) sampleLayerSetup 2 1 [0, 2]
          \<lparr> setup_randomSeed = Some [7] \<rparr> sampleLayer)) 0 = 7
   \<and> mCurandStatesDevice (snd (SamplingLayer_setup (\<lambda>seed. seed) sampleLayerSetup 2 1 [0, 2]
          \<lparr> setup_randomSeed = Some [7] \<rparr> sampleLayer)) 2 = 7
   \<and> mCurandStatesDevice (snd (SamplingLayer_setup (\<lambda>seed. seed) sampleLayerSetup 2 1 [0, 2]
          \<lparr> setup_randomSeed = Some [5, 6] \<rparr> sampleLayer)) 0 = 5
   \<and> mCurandStatesDevice (snd (SamplingLayer_setup (\<lambda>seed. seed) sampleLayerSetup 2 1 [0, 2]
          \<lparr> setup_randomSeed = Some [5, 6] \<rparr> sampleLayer)) 2 = 6
   \<and> SamplingLayer_setup (\<lambda>seed. seed) sampleLayerSetup 2 1 [0, 2]
          \<lparr> setup_randomSeed = Some [1, 2, 3] \<rparr> sampleLayer
        = (Some RandomSeedSizeMismatch, sampleLayer)
   \<and> mCurandStatesDevice (snd (SamplingLayer_setup (\<lambda>seed. seed) sampleLayerSetup 2 1 [0, 2]
          \<lparr> setup_randomSeed = None \<rparr> sampleLayer)) 0 = 0
   \<and> mCurandStatesDevice (snd (SamplingLayer_setup (\<lambda>seed. seed) sampleLayerSetup 2 1 [0, 2]
          \<lparr> setup_randomSeed = None \<rparr> sampleLayer)) 2 = 0
   \<and> fst (SamplingLayer_setup (\<lambda>seed. seed) sampleLayerSetup 2 1 [0, 2]
          \<lparr> setup_randomSeed = None \<rparr> sampleLayer) = None"
proof -
  have h1: "length [0, 2 :: nat] = 2" by simp
  have h2: "distinct [0, 2 :: nat]" by simp
  note t = setup_random_seed [OF h1 h2, of _ "\<lambda>seed. seed" sampleLayerSetup 1 sampleLayer]
  have one: "\<forall>bi<2. mCurandStatesDevice (snd (SamplingLayer_setup (\<lambda>seed. seed) sampleLayerSetup 2 1
          [0, 2] \<lparr> setup_randomSeed = Some [7] \<rparr> sampleLayer)) ([0, 2] ! bi) = 7"
    using t [of "\<lparr> setup_randomSeed = Some [7] \<rparr>"] by simp
  have two: "\<forall>bi<2. mCurandStatesDevice (snd (SamplingLayer_setup (\<lambda>seed. seed) sampleLayerSetup 2 1
          [0, 2] \<lparr> setup_randomSeed = Some [5, 6] \<rparr> sampleLayer)) ([0, 2] ! bi) = [5, 6] ! bi"
    using t [of "\<lparr> setup_randomSeed = Some [5, 6] \<rparr>"] by simp
  have three: "SamplingLayer_setup (\<lambda>seed. seed) sampleLayerSetup 2 1 [0, 2]
          \<lparr> setup_randomSeed = Some [1, 2, 3] \<rparr> sampleLayer
        = (Some RandomSeedSizeMismatch, sampleLayer)"
    using t [of "\<lparr> setup_randomSeed = Some [1, 2, 3] \<rparr>"] by simp
  have four: "(\<forall>bi<2. mCurandStatesDevice (snd (SamplingLayer_setup (\<lambda>seed. seed) sampleLayerSetup 2 1
          [0, 2] \<lparr> setup_randomSeed = None \<rparr> sampleLayer)) ([0, 2] ! bi) = 0)
      \<and> fst (SamplingLayer_setup (\<lambda>seed. seed) sampleLayerSetup 2 1 [0, 2]
          \<lparr> setup_randomSeed = None \<rparr> sampleLayer) = None"
    using t [of "\<lparr> setup_randomSeed = None \<rparr>"]
    by (simp add: sampleLayer_def sampleLayerSetup_def)
  show ?thesis
    using h2 one [rule_format, of 0] one [rule_format, of 1] two [rule_format, of 0]
      two [rule_format, of 1] three four [THEN conjunct1, rule_format, of 0]
      four [THEN conjunct1, rule_format, of 1] four [THEN conjunct2]
    by simp
qed

lemma argmaxLoop_map:
  assumes mono: "\<And>x y. f x < f y \<longleftrightarrow> x < (y::real)"
  shows "argmaxLoop (map f xs) i best (f bv) = argmaxLoop xs i best bv"
  by (induction xs arbitrary: i best bv) (simp_all add: mono)

lemma argmax_map:
  assumes mono: "\<And>x y. f x < f y \<longleftrightarrow> x < (y::real)"
  shows "argmax (map f xs) = argmax xs"
  by (cases xs) (simp_all add: argmax_def argmaxLoop_map [of f, OF mono])

lemma sum_list_exp_nonneg: "0 \<le> (\<Sum>y\<leftarrow>xs. exp (y - (m::real)))"
  by (induction xs) (simp_all add: add_nonneg_nonneg)

lemma sum_list_exp_pos: "xs \<noteq> [] \<Longrightarrow> 0 < (\<Sum>y\<leftarrow>xs. exp (y - (m::real)))"
  by (cases xs) (simp_all add: add_pos_nonneg sum_list_exp_nonneg)

lemma argmax_softmax: "argmax (softmax logits) = argmax logits"
proof (cases "logits = []")
  case True
  then show ?thesis by (simp add: softmax_def)
next
  case False
  define m where "m = Max (set logits)"
  define s where "s = (\<Sum>y\<leftarrow>logits. exp (y - m))"
  have s: "0 < s" unfolding s_def by (rule sum_list_exp_pos [OF False])
  have "softmax logits = map (\<lambda>x. exp (x - m) / s) logits"
    by (simp add: softmax_def m_def s_def Let_def)
  moreover have "argmax (map (\<lambda>x. exp (x - m) / s) logits) = argmax logits"
    by (rule argmax_map) (use s in \<open>auto simp: divide_less_cancel\<close>)
  ultimately show ?thesis by simp
qed

text \<open>
  C6. The softmax skip. \<open>forward\<close> skips the softmax exactly when the mode has no
  top-p bit and neither \<open>cumLogProbs\<close> nor \<open>outputLogProbs\<close> is given; it then
  leaves the logits untouched and reports \<open>probs_computed = false\<close>, otherwise the
  buffer holds the softmax. When the softmax is skipped, the arg-max of the buffer is
  the arg-max of the probabilities the softmax would have produced.
\<close>

theorem softmax_skipped_iff_and_same_choice:
  "(skipSoftMax (mDecodingMode this) cumLogProbs outputLogProbs
      \<longleftrightarrow> \<not> isTopP (mDecodingMode this) \<and> cumLogProbs = None \<and> outputLogProbs = None)
   \<and> SamplingLayer_forward this cumLogProbs outputLogProbs logits
       = (if skipSoftMax (mDecodingMode this) cumLogProbs outputLogProbs then (False, logits)
          else (True, softmax logits))
   \<and> (skipSoftMax (mDecodingMode this) cumLogProbs outputLogProbs \<longrightarrow>
        argmax (snd (SamplingLayer_forward this cumLogProbs outputLogProbs logits))
          = argmax (invokeAddBiasSoftMax logits False))"
  by (simp add: skipSoftMax_def SamplingLayer_forward_def invokeAddBiasSoftMax_def argmax_softmax)

lemma mode_flags_TopK_notTopP: "\<not> isTopP TopK"
  by (simp add: isTopP_def anyBitSet_def TopK_def kTopK_def kTopP_def)

theorem softmax_skipped_iff_and_same_choice_witness:
  "skipSoftMax (mDecodingMode sampleLayer) (None :: unit option) (None :: unit option)
   \<and> argmax (snd (SamplingLayer_forward sampleLayer (None :: unit option) (None :: unit option)
                    [1, 3, 2]))
       = argmax (invokeAddBiasSoftMax [1, 3, 2] False)
   \<and> argmax [1, 3, 2] = 1"
proof -
  have a: "argmax [1, 3, 2] = 1" by (simp add: argmax_def)
  have sk: "skipSoftMax (mDecodingMode sampleLayer) (None :: unit option) (None :: unit option)"
    by (simp add: skipSoftMax_def sampleLayer_def mode_flags_TopK_notTopP)
  from softmax_skipped_iff_and_same_choice
    [of sampleLayer "None :: unit option" "None :: unit option" "[1, 3, 2]"] sk a
  show ?thesis by blast
qed

section \<open>Properties of the max-length criterion\<close>

lemma lengthCriterion_finished:
  "slot \<in> set (activeSlots batchSlots batchSize) \<Longrightarrow> beam < bw \<Longrightarrow>
   fst (invokeLengthCriterion fin fs limits lens batchSlots batchSize bw) slot beam
     = lengthCriterionBeam (fin slot beam) (lens slot beam) (limits slot)"
  by (simp add: invokeLengthCriterion_def)

lemma lengthCriterion_sum:
  "slot \<in> set (activeSlots batchSlots batchSize) \<Longrightarrow>
   snd (invokeLengthCriterion fin fs limits lens batchSlots batchSize bw) slot
     = finishedBeams (fst (invokeLengthCriterion fin fs limits lens batchSlots batchSize bw)) slot bw"
  by (simp add: invokeLengthCriterion_def finishedBeams_def)

lemma lengthCriterion_inactive:
  "slot \<notin> set (activeSlots batchSlots batchSize) \<Longrightarrow>
   fst (invokeLengthCriterion fin fs limits lens batchSlots batchSize bw) slot beam = fin slot beam
   \<and> snd (invokeLengthCriterion fin fs limits lens batchSlots batchSize bw) slot = fs slot"
  by (simp add: invokeLengthCriterion_def)

lemma finishedBeams_fresh:
  assumes "\<forall>beam<bw. fin' slot beam = lengthCriterionBeam NotFinished (lens slot beam) (limits slot)"
  shows "finishedBeams fin' slot bw = beamsAtLimit limits lens slot bw"
proof -
  have "filter (\<lambda>beam. isFinished (fin' slot beam)) [0..<bw]
      = filter (\<lambda>beam. limits slot \<le> lens slot beam) [0..<bw]"
    using assms by (intro filter_cong) (auto simp: lengthCriterionBeam_def isFinished_def)
  then show ?thesis by (simp add: finishedBeams_def beamsAtLimit_def)
qed

text \<open>
  C4 (amended). The max-length criterion, for every active slot: a beam whose length is
  at least the slot's limit is finished by maximum length afterwards, every other beam
  keeps its state, and the slot's finished-sum is the count of its finished beams,
  whatever finished them. For a slot with no beam finished when the criterion runs (the
  test's initial state), a beam is finished by maximum length afterwards exactly when
  its length is at least the limit, and the finished-sum is the count of such beams.
\<close>

theorem lengthCriterion_marks_and_counts:
  assumes act: "slot \<in> set (activeSlots batchSlots batchSize)"
  shows
    "(\<forall>beam<bw. limits slot \<le> lens slot beam \<longrightarrow>
        fst (invokeLengthCriterion fin fs limits lens batchSlots batchSize bw) slot beam
          = FinishedMaxLength)
     \<and> (\<forall>beam<bw. lens slot beam < limits slot \<longrightarrow>
        fst (invokeLengthCriterion fin fs limits lens batchSlots batchSize bw) slot beam
          = fin slot beam)
     \<and> snd (invokeLengthCriterion fin fs limits lens batchSlots batchSize bw) slot
          = finishedBeams (fst (invokeLengthCriterion fin fs limits lens batchSlots batchSize bw))
              slot bw
     \<and> ((\<forall>beam<bw. fin slot beam = NotFinished) \<longrightarrow>
          (\<forall>beam<bw.
              isFinishedMaxLength
                (fst (invokeLengthCriterion fin fs limits lens batchSlots batchSize bw) slot beam)
              \<longleftrightarrow> limits slot \<le> lens slot beam)
          \<and> snd (invokeLengthCriterion fin fs limits lens batchSlots batchSize bw) slot
              = beamsAtLimit limits lens slot bw)"
proof (intro conjI allI impI)
  fix beam assume "beam < bw" "limits slot \<le> lens slot beam"
  then show "fst (invokeLengthCriterion fin fs limits lens batchSlots batchSize bw) slot beam
      = FinishedMaxLength"
    using act by (simp add: lengthCriterion_finished lengthCriterionBeam_def)
next
  fix beam assume "beam < bw" "lens slot beam < limits slot"
  then show "fst (invokeLengthCriterion fin fs limits lens batchSlots batchSize bw) slot beam
      = fin slot beam"
    using act by (simp add: lengthCriterion_finished lengthCriterionBeam_def)
next
  show "snd (invokeLengthCriterion fin fs limits lens batchSlots batchSize bw) slot
      = finishedBeams (fst (invokeLengthCriterion fin fs limits lens batchSlots batchSize bw)) slot bw"
    using act by (rule lengthCriterion_sum)
next
  fix beam assume "\<forall>beam<bw. fin slot beam = NotFinished" "beam < bw"
  then show "isFinishedMaxLength
        (fst (invokeLengthCriterion fin fs limits lens batchSlots batchSize bw) slot beam)
      \<longleftrightarrow> limits slot \<le> lens slot beam"
    using act
    by (simp add: lengthCriterion_finished lengthCriterionBeam_def isFinishedMaxLength_def)
next
  assume fresh: "\<forall>beam<bw. fin slot beam = NotFinished"
  have "finishedBeams (fst (invokeLengthCriterion fin fs limits lens batchSlots batchSize bw)) slot bw
      = beamsAtLimit limits lens slot bw"
    using act fresh by (intro finishedBeams_fresh) (simp add: lengthCriterion_finished)
  then show "snd (invokeLengthCriterion fin fs limits lens batchSlots batchSize bw) slot
      = beamsAtLimit limits lens slot bw"
    using act by (simp add: lengthCriterion_sum)
qed

lemma sample_active: "0 \<in> set (activeSlots [0] 1)"
  by (simp add: activeSlots_def)

theorem lengthCriterion_marks_and_counts_witness:
  "0 \<in> set (activeSlots [0] 1)
   \<and> fst (invokeLengthCriterion noneFinished zeroSum limitTen lengthsByBeam [0] 1 2) 0 0
       = FinishedMaxLength
   \<and> fst (invokeLengthCriterion noneFinished zeroSum limitTen lengthsByBeam [0] 1 2) 0 1
       = NotFinished
   \<and> snd (invokeLengthCriterion noneFinished zeroSum limitTen lengthsByBeam [0] 1 2) 0 = 1
   \<and> beamsAtLimit limitTen lengthsByBeam 0 2 = 1"
proof -
  note t = lengthCriterion_marks_and_counts
    [OF sample_active, of 2 limitTen lengthsByBeam noneFinished zeroSum]
  have b: "beamsAtLimit limitTen lengthsByBeam 0 2 = 1"
    by (simp add: beamsAtLimit_def limitTen_def lengthsByBeam_def numeral_2_eq_2)
  have c0: "limitTen 0 \<le> lengthsByBeam 0 0" and c1: "lengthsByBeam 0 1 < limitTen 0"
    by (simp_all add: limitTen_def lengthsByBeam_def)
  have f: "\<forall>beam<2. noneFinished 0 beam = NotFinished"
    by (simp add: noneFinished_def empty_state_def)
  from t [THEN conjunct1, rule_format, of 0] c0
  have r0: "fst (invokeLengthCriterion noneFinished zeroSum limitTen lengthsByBeam [0] 1 2) 0 0
       = FinishedMaxLength" by simp
  from t [THEN conjunct2, THEN conjunct1, rule_format, of 1] c1
  have r1: "fst (invokeLengthCriterion noneFinished zeroSum limitTen lengthsByBeam [0] 1 2) 0 1
       = NotFinished" by (simp add: noneFinished_def empty_state_def)
  from t [THEN conjunct2, THEN conjunct2, THEN conjunct2] f
  have r2: "snd (invokeLengthCriterion noneFinished zeroSum limitTen lengthsByBeam [0] 1 2) 0
       = beamsAtLimit limitTen lengthsByBeam 0 2" by blast
  from sample_active r0 r1 r2 b show ?thesis by simp
qed

text \<open>
  C4 as stated fails for a beam that was already finished for another reason: one slot
  with one beam of length 3 under a limit of 10, finished by end token. The state is
  sticky and counts as finished, so the finished-sum is 1 while no beam has reached
  the limit.
\<close>

theorem lengthCriterion_counts_finished_counterexample:
  "0 \<in> set (activeSlots [0] 1)
   \<and> fst (invokeLengthCriterion eosFinished zeroSum limitTen lengthThree [0] 1 1) 0 0 = FinishedEos
   \<and> snd (invokeLengthCriterion eosFinished zeroSum limitTen lengthThree [0] 1 1) 0 = 1
   \<and> beamsAtLimit limitTen lengthThree 0 1 = 0
   \<and> snd (invokeLengthCriterion eosFinished zeroSum limitTen lengthThree [0] 1 1) 0
       \<noteq> beamsAtLimit limitTen lengthThree 0 1"
  by (simp add: invokeLengthCriterion_def activeSlots_def eosFinished_def limitTen_def
      lengthThree_def lengthCriterionBeam_def isFinished_def beamsAtLimit_def)

text \<open>
  From the test's initial state (every beam \<open>empty()\<close>) the modelled criterion meets
  every expectation of \<open>verifyMaxSeqLenStopCriteriaResults\<close>.
\<close>

lemma lengthCriterion_passes_test:
  assumes fresh: "\<forall>bi<batchSize. \<forall>beam<bw. fin (batchSlots ! bi) beam = empty_state"
    and len: "batchSize \<le> length batchSlots"
  shows "verifyMaxSeqLenStopCriteriaResults
           (fst (invokeLengthCriterion fin fs limits lens batchSlots batchSize bw))
           (snd (invokeLengthCriterion fin fs limits lens batchSlots batchSize bw))
           limits lens batchSlots batchSize bw"
proof -
  have "list_all (\<lambda>beamIdx. limits (batchSlots ! bi) \<le> lens (batchSlots ! bi) beamIdx \<longrightarrow>
            isFinishedMaxLength
              (fst (invokeLengthCriterion fin fs limits lens batchSlots batchSize bw)
                 (batchSlots ! bi) beamIdx)) [0..<bw]
        \<and> int (length (filter (\<lambda>beamIdx. limits (batchSlots ! bi) \<le> lens (batchSlots ! bi) beamIdx)
                  [0..<bw]))
            = snd (invokeLengthCriterion fin fs limits lens batchSlots batchSize bw) (batchSlots ! bi)"
    if bi: "bi < batchSize" for bi
  proof -
    from bi len have act: "batchSlots ! bi \<in> set (activeSlots batchSlots batchSize)"
      by (auto simp: activeSlots_def in_set_conv_nth intro!: exI [of _ bi])
    from fresh bi have fr: "\<forall>beam<bw. fin (batchSlots ! bi) beam = NotFinished"
      by (simp add: empty_state_def)
    note t = lengthCriterion_finished [OF act]
    have "finishedBeams (fst (invokeLengthCriterion fin fs limits lens batchSlots batchSize bw))
            (batchSlots ! bi) bw = beamsAtLimit limits lens (batchSlots ! bi) bw"
      using fr by (intro finishedBeams_fresh) (simp add: t)
    then show ?thesis
      using fr
      by (simp add: list_all_iff t lengthCriterionBeam_def isFinishedMaxLength_def
          lengthCriterion_sum [OF act] beamsAtLimit_def)
  qed
  then show ?thesis
    by (simp add: verifyMaxSeqLenStopCriteriaResults_def list_all_iff Let_def)
qed

section \<open>Properties of the stop-words criterion\<close>

lemma matchBackward_iff:
  "matchBackward ids pos ws \<longleftrightarrow> (ws = [] \<or> pos \<le> length ids) \<and> suffix (rev ws) (take pos ids)"
proof (induction ws arbitrary: pos)
  case Nil
  then show ?case by simp
next
  case (Cons t ts)
  show ?case
  proof (cases "0 < pos \<and> pos \<le> length ids")
    case True
    then obtain p where p: "pos = Suc p" "p < length ids" by (cases pos) auto
    then have tk: "take (Suc p) ids = take p ids @ [ids ! p]"
      by (simp add: take_Suc_conv_app_nth)
    show ?thesis
      using p Cons.IH [of p] by (auto simp: tk simp del: take_Suc_conv_app_nth)
  next
    case False
    then show ?thesis by (auto simp: suffix_def)
  qed
qed

lemma stopWordMatches_iff:
  "stopWordMatches ids len w \<longleftrightarrow> endsWithPhrase ids len w"
  by (auto simp: stopWordMatches_def endsWithPhrase_def matchBackward_iff)

lemma stopWordsCriterion_active:
  "slot \<in> set (activeSlots batchSlots batchSize) \<Longrightarrow> beam < bw \<Longrightarrow>
   invokeStopWordsCriterion ids words fin lens batchSlots batchSize bw slot beam
     = (if \<exists>w\<in>set (words slot). endsWithPhrase (ids slot beam) (lens slot beam) w
        then FinishedStopWords else fin slot beam)"
  by (simp add: invokeStopWordsCriterion_def list_ex_iff stopWordMatches_iff)

lemma endsWithPhrase_append:
  "w \<noteq> [] \<Longrightarrow> endsWithPhrase (pre @ w @ post) (length pre + length w) w"
  by (simp add: endsWithPhrase_def suffix_def)

lemma endsWithPhrase_at_15:
  "endsWithPhrase (pre @ [13, 14, 15] @ post) (length pre + 3) [13, 14, 15]"
  using endsWithPhrase_append [of "[13, 14, 15]" pre post] by (simp add: numeral_3_eq_3)

lemma suffix_take_sublist:
  "suffix w (take n xs) \<Longrightarrow> sublist w xs"
proof -
  assume "suffix w (take n xs)"
  then obtain a where "take n xs = a @ w" by (auto simp: suffix_def)
  then have "xs = a @ w @ drop n xs"
    by (metis append_take_drop_id append.assoc)
  then show ?thesis by (auto simp: sublist_def)
qed

lemma not_before:
  assumes nosub: "\<not> sublist [13, 14, 15] pre" and lt: "len < length pre + 3"
  shows "\<not> endsWithPhrase (pre @ [13, 14, 15] @ post) len [13, 14, 15 :: int]"
proof
  assume e: "endsWithPhrase (pre @ [13, 14, 15] @ post) len [13, 14, 15]"
  then have sf: "suffix [13, 14, 15] (take len (pre @ [13, 14, 15] @ post))"
    by (simp add: endsWithPhrase_def)
  consider "len \<le> length pre" | "len = length pre + 1" | "len = length pre + 2"
    using lt by linarith
  then show False
  proof cases
    case 1
    with sf have "suffix [13, 14, 15] (take len pre)" by simp
    then have "sublist [13, 14, 15] pre" by (rule suffix_take_sublist)
    with nosub show False by simp
  next
    case 2
    then have "take len (pre @ [13, 14, 15] @ post) = pre @ [13]" by simp
    with sf have "suffix ([13, 14] @ [15]) (pre @ [13 :: int])" by simp
    then show False unfolding snoc_suffix_snoc by simp
  next
    case 3
    then have "take len (pre @ [13, 14, 15] @ post) = (pre @ [13]) @ [14]"
      by (simp add: numeral_2_eq_2)
    with sf have "suffix ([13, 14] @ [15]) ((pre @ [13]) @ [14 :: int])" by simp
    then show False unfolding snoc_suffix_snoc by simp
  qed
qed

text \<open>
  C5 (amended). The stop-words criterion, for every active slot and beam: when some
  stop phrase of the slot (a non-empty word) occurs as a contiguous subsequence of the
  emitted tokens ending exactly at the current length, the beam is finished by stop
  words afterwards; otherwise the beam keeps the state it had. Hence a beam not already
  finished by stop words is finished by stop words afterwards if and only if such a
  phrase occurs, and a beam that was not finished and matches no phrase remains not
  finished. With the single phrase \<open>{13, 14, 15}\<close> and an emitted sequence
  \<open>..., 13, 14, 15\<close> that does not hold the phrase earlier, a beam that was not finished
  is finished exactly at the length reached when 15 is appended, at no length before.
\<close>

theorem stopWordsCriterion_marks_iff_tail_matches:
  assumes act: "slot \<in> set (activeSlots batchSlots batchSize)" and beam: "beam < bw"
  shows
    "((\<exists>w\<in>set (words slot). endsWithPhrase (ids slot beam) (lens slot beam) w) \<longrightarrow>
        invokeStopWordsCriterion ids words fin lens batchSlots batchSize bw slot beam
          = FinishedStopWords)
     \<and> (\<not> (\<exists>w\<in>set (words slot). endsWithPhrase (ids slot beam) (lens slot beam) w) \<longrightarrow>
        invokeStopWordsCriterion ids words fin lens batchSlots batchSize bw slot beam
          = fin slot beam)
     \<and> (fin slot beam \<noteq> FinishedStopWords \<longrightarrow>
        (isFinishedStopWords
           (invokeStopWordsCriterion ids words fin lens batchSlots batchSize bw slot beam)
         \<longleftrightarrow> (\<exists>w\<in>set (words slot). endsWithPhrase (ids slot beam) (lens slot beam) w)))
     \<and> (fin slot beam = NotFinished
          \<and> \<not> (\<exists>w\<in>set (words slot). endsWithPhrase (ids slot beam) (lens slot beam) w) \<longrightarrow>
          \<not> isFinished
              (invokeStopWordsCriterion ids words fin lens batchSlots batchSize bw slot beam))
     \<and> (fin slot beam = NotFinished
          \<and> words slot = [[13, 14, 15]] \<and> ids slot beam = pre @ [13, 14, 15] @ post
          \<and> \<not> sublist [13, 14, 15] pre \<and> lens slot beam \<le> length pre + 3 \<longrightarrow>
          (isFinished
              (invokeStopWordsCriterion ids words fin lens batchSlots batchSize bw slot beam)
            \<longleftrightarrow> lens slot beam = length pre + 3)
          \<and> (isFinishedStopWords
              (invokeStopWordsCriterion ids words fin lens batchSlots batchSize bw slot beam)
            \<longleftrightarrow> lens slot beam = length pre + 3))"
proof (intro conjI impI)
  assume "\<exists>w\<in>set (words slot). endsWithPhrase (ids slot beam) (lens slot beam) w"
  then show "invokeStopWordsCriterion ids words fin lens batchSlots batchSize bw slot beam
      = FinishedStopWords"
    by (simp add: stopWordsCriterion_active [OF act beam])
next
  assume "\<not> (\<exists>w\<in>set (words slot). endsWithPhrase (ids slot beam) (lens slot beam) w)"
  then show "invokeStopWordsCriterion ids words fin lens batchSlots batchSize bw slot beam
      = fin slot beam"
    by (simp add: stopWordsCriterion_active [OF act beam])
next
  assume "fin slot beam \<noteq> FinishedStopWords"
  then show "isFinishedStopWords
        (invokeStopWordsCriterion ids words fin lens batchSlots batchSize bw slot beam)
       \<longleftrightarrow> (\<exists>w\<in>set (words slot). endsWithPhrase (ids slot beam) (lens slot beam) w)"
    by (simp add: stopWordsCriterion_active [OF act beam] isFinishedStopWords_def)
next
  assume "fin slot beam = NotFinished
      \<and> \<not> (\<exists>w\<in>set (words slot). endsWithPhrase (ids slot beam) (lens slot beam) w)"
  then show "\<not> isFinished
      (invokeStopWordsCriterion ids words fin lens batchSlots batchSize bw slot beam)"
    by (simp add: stopWordsCriterion_active [OF act beam] isFinished_def)
next
  assume a: "fin slot beam = NotFinished
          \<and> words slot = [[13, 14, 15]] \<and> ids slot beam = pre @ [13, 14, 15] @ post
          \<and> \<not> sublist [13, 14, 15] pre \<and> lens slot beam \<le> length pre + 3"
  have m: "endsWithPhrase (pre @ [13, 14, 15] @ post) (lens slot beam) [13, 14, 15]
      \<longleftrightarrow> lens slot beam = length pre + 3"
  proof (cases "lens slot beam = length pre + 3")
    case True
    with endsWithPhrase_at_15 [of pre post] show ?thesis by simp
  next
    case False
    with a have "lens slot beam < length pre + 3" by simp
    with a not_before [of pre "lens slot beam" post] False show ?thesis by simp
  qed
  from m a show "isFinished
        (invokeStopWordsCriterion ids words fin lens batchSlots batchSize bw slot beam)
       \<longleftrightarrow> lens slot beam = length pre + 3"
    by (simp add: stopWordsCriterion_active [OF act beam] isFinished_def)
  from m a show "isFinishedStopWords
        (invokeStopWordsCriterion ids words fin lens batchSlots batchSize bw slot beam)
       \<longleftrightarrow> lens slot beam = length pre + 3"
    by (simp add: stopWordsCriterion_active [OF act beam] isFinishedStopWords_def)
qed

lemma noneFinished_fresh: "noneFinished slot beam = NotFinished"
  by (simp add: noneFinished_def empty_state_def)

lemma no_earlier_phrase: "\<not> sublist [13, 14, 15] [0, 1, 2, 3, 4, 5, 6, 7, 8, 9, 10, 11, 12 :: int]"
  by (simp add: sublist_Cons_right)

theorem stopWordsCriterion_marks_iff_tail_matches_witness:
  "0 \<in> set (activeSlots [0] 1) \<and> (0::nat) < 1 \<and> noneFinished 0 0 = NotFinished
   \<and> endsWithPhrase (testOutputIds 0 0) (lengthSixteen 0 0) [13, 14, 15]
   \<and> isFinishedStopWords
        (invokeStopWordsCriterion testOutputIds testStopWords noneFinished lengthSixteen [0] 1 1 0 0)
   \<and> \<not> isFinished
        (invokeStopWordsCriterion testOutputIds testStopWords noneFinished lengthFifteen [0] 1 1 0 0)
   \<and> invokeStopWordsCriterion testOutputIds testStopWords noneFinished lengthSixteen [0] 1 1 0 0
       = FinishedStopWords
   \<and> invokeStopWordsCriterion testOutputIds testStopWords noneFinished lengthFifteen [0] 1 1 0 0
       = noneFinished 0 0
   \<and> onePhrase 0 = [[13, 14, 15]]
   \<and> testOutputIds 0 0 = [0, 1, 2, 3, 4, 5, 6, 7, 8, 9, 10, 11, 12] @ [13, 14, 15] @ []
   \<and> \<not> sublist [13, 14, 15] [0, 1, 2, 3, 4, 5, 6, 7, 8, 9, 10, 11, 12 :: int]
   \<and> isFinishedStopWords
        (invokeStopWordsCriterion testOutputIds onePhrase noneFinished lengthSixteen [0] 1 1 0 0)
   \<and> \<not> isFinishedStopWords
        (invokeStopWordsCriterion testOutputIds onePhrase noneFinished lengthFifteen [0] 1 1 0 0)"
proof -
  have z: "(0::nat) < 1" by simp
  note t = stopWordsCriterion_marks_iff_tail_matches
    [where slot = 0 and beam = 0 and fin = noneFinished and batchSlots = "[0]" and batchSize = 1
       and bw = 1 and ids = testOutputIds, OF sample_active z]
  have nf: "noneFinished 0 0 \<noteq> FinishedStopWords" by (simp add: noneFinished_fresh)
  have e16: "endsWithPhrase (testOutputIds 0 0) (lengthSixteen 0 0) [13, 14, 15]"
    by (simp add: endsWithPhrase_def testOutputIds_def lengthSixteen_def suffix_def)
  then have ex: "\<exists>w\<in>set (testStopWords 0). endsWithPhrase (testOutputIds 0 0) (lengthSixteen 0 0) w"
    by (simp add: testStopWords_def)
  have tk: "take 15 (testOutputIds 0 0) = [0, 1, 2, 3, 4, 5, 6, 7, 8, 9, 10, 11, 12, 13, 14]"
    by (simp add: testOutputIds_def)
  have n15: "\<not> (\<exists>w\<in>set (testStopWords 0). endsWithPhrase (testOutputIds 0 0) (lengthFifteen 0 0) w)"
    by (simp add: testStopWords_def endsWithPhrase_def lengthFifteen_def tk suffix_Cons)
  from t [where lens = lengthSixteen and words = testStopWords, THEN conjunct2, THEN conjunct2,
      THEN conjunct1] ex nf
  have r16: "isFinishedStopWords
        (invokeStopWordsCriterion testOutputIds testStopWords noneFinished lengthSixteen [0] 1 1 0 0)"
    by blast
  from t [where lens = lengthFifteen and words = testStopWords, THEN conjunct2, THEN conjunct2,
      THEN conjunct2, THEN conjunct1]
    n15 noneFinished_fresh [of 0 0]
  have r15: "\<not> isFinished
        (invokeStopWordsCriterion testOutputIds testStopWords noneFinished lengthFifteen [0] 1 1 0 0)"
    by blast
  from t [where lens = lengthSixteen and words = testStopWords, THEN conjunct1] ex
  have g16: "invokeStopWordsCriterion testOutputIds testStopWords noneFinished lengthSixteen
        [0] 1 1 0 0 = FinishedStopWords"
    by blast
  from t [where lens = lengthFifteen and words = testStopWords, THEN conjunct2, THEN conjunct1] n15
  have g15: "invokeStopWordsCriterion testOutputIds testStopWords noneFinished lengthFifteen
        [0] 1 1 0 0 = noneFinished 0 0"
    by blast
  have o: "onePhrase 0 = [[13, 14, 15]]" by (simp add: onePhrase_def)
  have sp: "testOutputIds 0 0 = [0, 1, 2, 3, 4, 5, 6, 7, 8, 9, 10, 11, 12] @ [13, 14, 15] @ []"
    by (simp add: testOutputIds_def)
  have l16: "lengthSixteen 0 0 \<le> length [0, 1, 2, 3, 4, 5, 6, 7, 8, 9, 10, 11, 12 :: int] + 3"
    "lengthSixteen 0 0 = length [0, 1, 2, 3, 4, 5, 6, 7, 8, 9, 10, 11, 12 :: int] + 3"
    by (simp_all add: lengthSixteen_def)
  have l15: "lengthFifteen 0 0 \<le> length [0, 1, 2, 3, 4, 5, 6, 7, 8, 9, 10, 11, 12 :: int] + 3"
    "lengthFifteen 0 0 \<noteq> length [0, 1, 2, 3, 4, 5, 6, 7, 8, 9, 10, 11, 12 :: int] + 3"
    by (simp_all add: lengthFifteen_def)
  from t [where lens = lengthSixteen and words = onePhrase
        and pre = "[0, 1, 2, 3, 4, 5, 6, 7, 8, 9, 10, 11, 12]" and post = "[]",
        THEN conjunct2, THEN conjunct2, THEN conjunct2, THEN conjunct2]
    noneFinished_fresh [of 0 0] o sp no_earlier_phrase l16
  have s16: "isFinishedStopWords
        (invokeStopWordsCriterion testOutputIds onePhrase noneFinished lengthSixteen [0] 1 1 0 0)"
    by blast
  from t [where lens = lengthFifteen and words = onePhrase
        and pre = "[0, 1, 2, 3, 4, 5, 6, 7, 8, 9, 10, 11, 12]" and post = "[]",
        THEN conjunct2, THEN conjunct2, THEN conjunct2, THEN conjunct2]
    noneFinished_fresh [of 0 0] o sp no_earlier_phrase l15
  have s15: "\<not> isFinishedStopWords
        (invokeStopWordsCriterion testOutputIds onePhrase noneFinished lengthFifteen [0] 1 1 0 0)"
    by blast
  from sample_active z noneFinished_fresh e16 r16 r15 g16 g15 o sp no_earlier_phrase s16 s15
  show ?thesis by blast
qed

text \<open>
  C5 as stated, for every beam, fails for a beam that is already finished by stop
  words: the state is sticky, so with the tokens 1, 2, 3 and the only phrase \<open>{9}\<close> the
  beam is finished by stop words after the criterion although no phrase ends at its
  current length.
\<close>

theorem stopWordsCriterion_sticky_counterexample:
  "0 \<in> set (activeSlots [0] 1)
   \<and> phraseNine 0 = [[9]]
   \<and> \<not> endsWithPhrase (threeOutputIds 0 0) (lengthThreeTokens 0 0) [9]
   \<and> \<not> list_ex (endsWithPhrase (threeOutputIds 0 0) (lengthThreeTokens 0 0)) (phraseNine 0)
   \<and> isFinishedStopWords
        (invokeStopWordsCriterion threeOutputIds phraseNine stopWordsFinished lengthThreeTokens
           [0] 1 1 0 0)"
  by (simp add: invokeStopWordsCriterion_def activeSlots_def phraseNine_def threeOutputIds_def
      lengthThreeTokens_def stopWordsFinished_def stopWordMatches_def endsWithPhrase_def
      isFinishedStopWords_def suffix_def numeral_3_eq_3)

lemma sublist_same_length:
  assumes "sublist w window" "length window \<le> length w"
  shows "window = w"
proof -
  from assms(1) obtain ps ss where "window = ps @ w @ ss" by (auto simp: sublist_def)
  with assms(2) show ?thesis by simp
qed

lemma isSubsequence_window:
  "isSubsequence sequence (length w) w \<longleftrightarrow> w \<noteq> [] \<and> take (length w) sequence = w"
proof (cases "w = []")
  case True
  then show ?thesis by (simp add: isSubsequence_def)
next
  case False
  have "sublist w (take (length w) sequence) \<longleftrightarrow> take (length w) sequence = w"
  proof
    assume "sublist w (take (length w) sequence)"
    then show "take (length w) sequence = w" by (rule sublist_same_length) simp
  next
    assume "take (length w) sequence = w"
    then show "sublist w (take (length w) sequence)" by simp
  qed
  with False show ?thesis by (simp add: isSubsequence_def)
qed

lemma isSubsequence_iff:
  assumes "length w \<le> len" "len \<le> length ids"
  shows "isSubsequence (drop (len - length w) ids) (length w) w \<longleftrightarrow> endsWithPhrase ids len w"
proof -
  have tk: "take len ids = take (len - length w) ids @ take (length w) (drop (len - length w) ids)"
    using assms by (metis le_add_diff_inverse2 take_add)
  have l: "length (take (length w) (drop (len - length w) ids)) = length w"
    using assms by simp
  have "suffix w (take len ids) \<longleftrightarrow> take (length w) (drop (len - length w) ids) = w"
  proof
    assume "suffix w (take len ids)"
    then obtain a where a: "take len ids = a @ w" by (auto simp: suffix_def)
    with tk l show "take (length w) (drop (len - length w) ids) = w"
      by (metis append_eq_append_conv)
  next
    assume "take (length w) (drop (len - length w) ids) = w"
    with tk show "suffix w (take len ids)" by (metis suffixI)
  qed
  with assms show ?thesis
    by (auto simp: isSubsequence_window endsWithPhrase_def)
qed

text \<open>
  From the test's initial state, with every word fitting into the emitted tokens, the
  modelled criterion meets every expectation of \<open>verifyStopWordsStopCriteriaResults\<close>.
\<close>

lemma stopWordsCriterion_passes_test:
  assumes fresh: "\<forall>bi<batchSize. \<forall>beam<bw. fin (batchSlots ! bi) beam = empty_state"
    and len: "batchSize \<le> length batchSlots"
    and fits: "\<forall>bi<batchSize. \<forall>beam<bw. \<forall>w\<in>set (words (batchSlots ! bi)).
        length w \<le> lens (batchSlots ! bi) beam
        \<and> lens (batchSlots ! bi) beam \<le> length (ids (batchSlots ! bi) beam)"
  shows "verifyStopWordsStopCriteriaResults ids words
           (invokeStopWordsCriterion ids words fin lens batchSlots batchSize bw)
           lens batchSlots batchSize bw"
proof -
  have "if list_ex (\<lambda>word. isSubsequence
                (drop (lens (batchSlots ! bi) beam - length word) (ids (batchSlots ! bi) beam))
                (length word) word)
             (words (batchSlots ! bi))
        then isFinishedStopWords
               (invokeStopWordsCriterion ids words fin lens batchSlots batchSize bw
                  (batchSlots ! bi) beam)
        else \<not> isFinished
               (invokeStopWordsCriterion ids words fin lens batchSlots batchSize bw
                  (batchSlots ! bi) beam)"
    if bi: "bi < batchSize" and beam: "beam < bw" for bi beam
  proof -
    from bi len have act: "batchSlots ! bi \<in> set (activeSlots batchSlots batchSize)"
      by (auto simp: activeSlots_def in_set_conv_nth intro!: exI [of _ bi])
    from fresh bi beam have fr: "fin (batchSlots ! bi) beam = NotFinished"
      by (simp add: empty_state_def)
    have "list_ex (\<lambda>word. isSubsequence
                (drop (lens (batchSlots ! bi) beam - length word) (ids (batchSlots ! bi) beam))
                (length word) word)
             (words (batchSlots ! bi))
        \<longleftrightarrow> (\<exists>w\<in>set (words (batchSlots ! bi)).
               endsWithPhrase (ids (batchSlots ! bi) beam) (lens (batchSlots ! bi) beam) w)"
      using fits bi beam by (simp add: list_ex_iff isSubsequence_iff)
    then show ?thesis
      using fr
      by (simp add: stopWordsCriterion_active [OF act beam] isFinishedStopWords_def
          isFinished_def)
  qed
  then show ?thesis
    by (simp add: verifyStopWordsStopCriteriaResults_def list_all_iff Let_def)
qed

section \<open>Properties of speculative tree verification\<close>

lemma bestSoFar_step_new:
  assumes "bestSoFar seen best len" "len < k"
  shows "bestSoFar (seen @ [k]) (length seen) k"
  using assms by (auto simp: bestSoFar_def list_all_iff split: if_splits)

lemma bestSoFar_step_keep:
  assumes "bestSoFar seen best len" "\<not> len < k"
  shows "bestSoFar (seen @ [k]) best len"
  using assms
  by (auto simp: bestSoFar_def list_all_iff nth_append split: if_splits dest: in_set_takeD)

lemma bestPathLoop_bestSoFar:
  "bestSoFar seen best len \<Longrightarrow> bestPathLoop ks (length seen) best len = (best', len') \<Longrightarrow>
   bestSoFar (seen @ ks) best' len'"
proof (induction ks arbitrary: seen best len)
  case Nil
  then show ?case by simp
next
  case (Cons k ks)
  show ?case
  proof (cases "len < k")
    case True
    from bestSoFar_step_new [OF Cons.prems(1) True] Cons.prems(2) True
      Cons.IH [of "seen @ [k]" "length seen" k]
    show ?thesis by simp
  next
    case False
    from bestSoFar_step_keep [OF Cons.prems(1) False] Cons.prems(2) False
      Cons.IH [of "seen @ [k]" best len]
    show ?thesis by simp
  qed
qed

lemma bestPathLoop_result:
  assumes "bestPathLoop ks 0 0 0 = (best, len)"
  shows "bestSoFar ks best len"
proof -
  have "bestSoFar [] 0 0" by (simp add: bestSoFar_def)
  from bestPathLoop_bestSoFar [OF this, of ks best len] assms show ?thesis by simp
qed

lemma acceptNodes_prefix:
  "acceptNodes d t prev p = Inr k \<Longrightarrow> k \<le> length p \<and> - 1 \<notin> set (take k p)"
proof (induction p arbitrary: prev k)
  case Nil
  then show ?case by simp
next
  case (Cons n p)
  show ?case
  proof (cases "k = 0")
    case True
    then show ?thesis by simp
  next
    case False
    with Cons.prems obtain k' where k': "k = Suc k'" "acceptNodes d t n p = Inr k'" "n \<noteq> - 1"
      by (auto split: if_splits sum.splits)
    with Cons.IH [of n k'] show ?thesis by simp
  qed
qed

lemma pathAcceptedLength_prefix:
  "pathAcceptedLength d t p = Inr k \<Longrightarrow> k \<le> length p \<and> - 1 \<notin> set (take k p)"
proof (cases p)
  case Nil
  assume "pathAcceptedLength d t p = Inr k"
  with Nil show ?thesis by (simp add: pathAcceptedLength_def)
next
  case (Cons r rest)
  assume a: "pathAcceptedLength d t p = Inr k"
  show ?thesis
  proof (cases "k = 0")
    case True
    then show ?thesis by simp
  next
    case False
    with a Cons obtain k' where k': "k = Suc k'" "acceptNodes d t r rest = Inr k'" "r \<noteq> - 1"
      by (auto simp: pathAcceptedLength_def split: if_splits sum.splits)
    with acceptNodes_prefix [of d t r rest k'] Cons show ?thesis by simp
  qed
qed

lemma allAcceptedLengths_nth:
  "allAcceptedLengths d t paths = Inr ks \<Longrightarrow>
   length ks = length paths \<and> (\<forall>j<length paths. pathAcceptedLength d t (paths ! j) = Inr (ks ! j))"
proof (induction paths arbitrary: ks)
  case Nil
  then show ?case by simp
next
  case (Cons p paths)
  from Cons.prems obtain k ks' where k: "pathAcceptedLength d t p = Inr k"
      "allAcceptedLengths d t paths = Inr ks'" "ks = k # ks'"
    by (auto split: sum.splits)
  with Cons.IH [of ks'] show ?case
    by (auto simp: nth_Cons split: nat.splits)
qed

lemma acceptedTokens_length:
  "acceptedTokens t ns = Inr tokens \<Longrightarrow> length tokens = length ns"
  by (induction ns arbitrary: tokens) (auto split: sum.splits)

lemma verifyPaths_scenario:
  "verifyPaths [[0, 1, 2], [0, 3, - 1]] [4, 0, 2] [4, 0, 2, 0] history
     = Inr \<lparr> acceptedLength = 3, bestPathIdx = 0, outputIds_new = history @ [4, 0, 2] \<rparr>"
  by (simp add: verifyPaths_def pathAcceptedLength_def nodeToken_def)

lemma verifyPaths_mismatch:
  "t \<noteq> 4 \<Longrightarrow> t \<noteq> 2 \<Longrightarrow>
   verifyPaths [[0, 1, 2], [0, 3, - 1]] [4, 0, 2] [t, 0, 2, 0] history
     = Inr \<lparr> acceptedLength = 1, bestPathIdx = 0, outputIds_new = history @ [t] \<rparr>"
  by (auto simp: verifyPaths_def pathAcceptedLength_def nodeToken_def)

lemma verifyPaths_draft_mismatch:
  "dA \<noteq> 4 \<Longrightarrow> dC \<noteq> 4 \<Longrightarrow>
   verifyPaths [[0, 1, 2], [0, 3, - 1]] [dA, dB, dC] [4, 0, 2, 0] history
     = Inr \<lparr> acceptedLength = 1, bestPathIdx = 0, outputIds_new = history @ [4] \<rparr>"
  by (auto simp: verifyPaths_def pathAcceptedLength_def nodeToken_def)

lemma verifyPaths_general:
  assumes v: "verifyPaths paths d t h = Inr v" and ne: "paths \<noteq> []"
  shows "bestPathIdx v < length paths
     \<and> pathAcceptedLength d t (paths ! bestPathIdx v) = Inr (acceptedLength v)
     \<and> (\<forall>j<length paths. \<forall>k. pathAcceptedLength d t (paths ! j) = Inr k \<longrightarrow>
            k \<le> acceptedLength v \<and> (j < bestPathIdx v \<longrightarrow> k < acceptedLength v))
     \<and> - 1 \<notin> set (take (acceptedLength v) (paths ! bestPathIdx v))
     \<and> (\<exists>tokens. outputIds_new v = h @ tokens \<and> length tokens = acceptedLength v)"
proof -
  from v obtain ks best len tokens where
    ks: "allAcceptedLengths d t paths = Inr ks" and
    bl: "bestPathLoop ks 0 0 0 = (best, len)" and
    tk: "acceptedTokens t (take len (paths ! best)) = Inr tokens" and
    vv: "v = \<lparr> acceptedLength = len, bestPathIdx = best, outputIds_new = h @ tokens \<rparr>"
    by (auto simp: verifyPaths_def split: sum.splits prod.splits)
  from allAcceptedLengths_nth [OF ks] have
    lk: "length ks = length paths" and
    nth: "\<And>j. j < length paths \<Longrightarrow> pathAcceptedLength d t (paths ! j) = Inr (ks ! j)"
    by auto
  from bestPathLoop_result [OF bl] lk ne have
    all: "\<forall>k\<in>set ks. k \<le> len" and before: "\<forall>k\<in>set (take best ks). k < len" and
    b: "best < length ks" "ks ! best = len"
    by (auto simp: bestSoFar_def list_all_iff split: if_splits)
  have p: "pathAcceptedLength d t (paths ! best) = Inr len"
    using nth [of best] b lk by simp
  from pathAcceptedLength_prefix [OF p] have pre: "len \<le> length (paths ! best)"
    "- 1 \<notin> set (take len (paths ! best))" by auto
  have cmp: "k \<le> len \<and> (j < best \<longrightarrow> k < len)"
    if j: "j < length paths" and k: "pathAcceptedLength d t (paths ! j) = Inr k" for j k
  proof -
    from nth [OF j] k have kj: "k = ks ! j" by simp
    from j lk all have "ks ! j \<le> len" by simp
    moreover have "ks ! j < len" if "j < best"
    proof -
      from that b have "ks ! j \<in> set (take best ks)"
        by (metis in_set_conv_nth length_take less_imp_le_nat min.absorb2 nth_take)
      with before show ?thesis by simp
    qed
    ultimately show ?thesis using kj by simp
  qed
  from acceptedTokens_length [OF tk] pre have "length tokens = len" by simp
  with b lk p cmp pre show ?thesis by (simp add: vv)
qed

text \<open>
  C3. Speculative tree verification. For the path tree \<open>{0, 1, 2 / 0, 3, -1}\<close> of the
  test's first request (draft tokens 4, 0, 2; target choices 4, 0, 2, 0) the full path
  \<open>0, 1, 2\<close> is accepted: length 3, and the target tokens 4, 0, 2 are appended to the
  history. If the comparison at the second level of the tree (the level below the
  root, depth counted from 1) fails on both paths, because the target model's choice
  there differs from the draft tokens of nodes 1 and 3, the accepted length is 1: only
  the target's own token is appended. In general the selected path is the first-listed
  among those of the longest accepted length, and its accepted prefix holds no \<open>-1\<close>
  entry.
\<close>

theorem verifyPaths_speculative_acceptance:
  "verifyPaths [[0, 1, 2], [0, 3, - 1]] [4, 0, 2] [4, 0, 2, 0] history
     = Inr \<lparr> acceptedLength = 3, bestPathIdx = 0, outputIds_new = history @ [4, 0, 2] \<rparr>
   \<and> (t \<noteq> 4 \<and> t \<noteq> 2 \<longrightarrow>
        verifyPaths [[0, 1, 2], [0, 3, - 1]] [4, 0, 2] [t, 0, 2, 0] history
          = Inr \<lparr> acceptedLength = 1, bestPathIdx = 0, outputIds_new = history @ [t] \<rparr>)
   \<and> (dA \<noteq> 4 \<and> dC \<noteq> 4 \<longrightarrow>
        verifyPaths [[0, 1, 2], [0, 3, - 1]] [dA, dB, dC] [4, 0, 2, 0] history
          = Inr \<lparr> acceptedLength = 1, bestPathIdx = 0, outputIds_new = history @ [4] \<rparr>)
   \<and> (verifyPaths paths d tgt h = Inr v \<and> paths \<noteq> [] \<longrightarrow>
        bestPathIdx v < length paths
        \<and> pathAcceptedLength d tgt (paths ! bestPathIdx v) = Inr (acceptedLength v)
        \<and> (\<forall>j<length paths. \<forall>k. pathAcceptedLength d tgt (paths ! j) = Inr k \<longrightarrow>
               k \<le> acceptedLength v \<and> (j < bestPathIdx v \<longrightarrow> k < acceptedLength v))
        \<and> - 1 \<notin> set (take (acceptedLength v) (paths ! bestPathIdx v))
        \<and> (\<exists>tokens. outputIds_new v = h @ tokens \<and> length tokens = acceptedLength v))"
  using verifyPaths_scenario [of history] verifyPaths_mismatch [of t history]
    verifyPaths_draft_mismatch [of dA dC dB history]
    verifyPaths_general [of paths d tgt h v]
  by blast

text \<open>
  The model yields the accepted tokens that \<open>MedusaSimpleTest\<close> expects for each of
  its six requests.
\<close>

lemma MedusaSimpleTest_expected:
  "verifyPaths (testPaths ! 0) (testDraftIds ! 0) testTargetIds []
     = Inr \<lparr> acceptedLength = 3, bestPathIdx = 0, outputIds_new = [4, 0, 2] \<rparr>"
  "verifyPaths (testPaths ! 1) (testDraftIds ! 1) testTargetIds []
     = Inr \<lparr> acceptedLength = 2, bestPathIdx = 0, outputIds_new = [4, 0] \<rparr>"
  "verifyPaths (testPaths ! 2) (testDraftIds ! 2) testTargetIds []
     = Inr \<lparr> acceptedLength = 3, bestPathIdx = 0, outputIds_new = [4, 0, 0] \<rparr>"
  "verifyPaths (testPaths ! 3) (testDraftIds ! 3) testTargetIds []
     = Inr \<lparr> acceptedLength = 3, bestPathIdx = 0, outputIds_new = [4, 2, 0] \<rparr>"
  "verifyPaths (testPaths ! 4) (testDraftIds ! 4) testTargetIds []
     = Inr \<lparr> acceptedLength = 1, bestPathIdx = 0, outputIds_new = [4] \<rparr>"
  "verifyPaths (testPaths ! 5) (testDraftIds ! 5) testTargetIds []
     = Inr \<lparr> acceptedLength = 1, bestPathIdx = 0, outputIds_new = [4] \<rparr>"
  by (simp_all add: testPaths_def testDraftIds_def testTargetIds_def verifyPaths_def
      pathAcceptedLength_def nodeToken_def)

lemma verifyPaths_tie_example:
  "verifyPaths [[0, 3, - 1], [0, 1, - 1]] [4, 0, 4] [4, 0, 2, 0] []
     = Inr \<lparr> acceptedLength = 2, bestPathIdx = 0, outputIds_new = [4, 0] \<rparr>"
  by (simp add: verifyPaths_def pathAcceptedLength_def nodeToken_def)

theorem verifyPaths_speculative_acceptance_witness:
  "(7::int) \<noteq> 4 \<and> (7::int) \<noteq> 2
   \<and> verifyPaths [[0, 1, 2], [0, 3, - 1]] [4, 0, 2] [7, 0, 2, 0] [9]
        = Inr \<lparr> acceptedLength = 1, bestPathIdx = 0, outputIds_new = [9, 7] \<rparr>
   \<and> (5::int) \<noteq> 4 \<and> (2::int) \<noteq> 4
   \<and> verifyPaths [[0, 1, 2], [0, 3, - 1]] [5, 0, 2] [4, 0, 2, 0] [9]
        = Inr \<lparr> acceptedLength = 1, bestPathIdx = 0, outputIds_new = [9, 4] \<rparr>
   \<and> verifyPaths [[0, 3, - 1], [0, 1, - 1]] [4, 0, 4] [4, 0, 2, 0] []
        = Inr \<lparr> acceptedLength = 2, bestPathIdx = 0, outputIds_new = [4, 0] \<rparr>
   \<and> [[0, 3, - 1], [0, 1, - 1 :: int]] \<noteq> []
   \<and> pathAcceptedLength [4, 0, 4] [4, 0, 2, 0] [0, 3, - 1] = Inr 2
   \<and> pathAcceptedLength [4, 0, 4] [4, 0, 2, 0] [0, 1, - 1] = Inr 2
   \<and> - 1 \<notin> set (take 2 [0, 3, - 1 :: int])"
proof -
  have tie: "verifyPaths [[0, 3, - 1], [0, 1, - 1]] [4, 0, 4] [4, 0, 2, 0] []
        = Inr \<lparr> acceptedLength = 2, bestPathIdx = 0, outputIds_new = [4, 0] \<rparr>"
    by (rule verifyPaths_tie_example)
  have second: "pathAcceptedLength [4, 0, 4] [4, 0, 2, 0] [0, 1, - 1] = Inr 2"
    by (simp add: pathAcceptedLength_def nodeToken_def)
  note t = verifyPaths_speculative_acceptance
    [where t = 7 and history = "[9]" and paths = "[[0, 3, - 1], [0, 1, - 1]]"
       and d = "[4, 0, 4]" and tgt = "[4, 0, 2, 0]" and h = "[]"
       and dA = 5 and dB = 0 and dC = 2
       and v = "\<lparr> acceptedLength = 2, bestPathIdx = 0, outputIds_new = [4, 0] \<rparr>"]
  from t tie second show ?thesis by simp
qed

end
